theory Spec2Isabelle
  imports Complex_Main "HOL-Library.Sublist"
begin

section \<open>Values exchanged with the outside world\<close>

text \<open>
  Parsed JSON, as \<^verbatim>\<open>JSON.parse\<close> returns it.  An object keeps its members in source order;
  a property read takes the last member with that name, as \<^verbatim>\<open>JSON.parse\<close> does for
  duplicate keys.  Numbers are idealised as reals.
\<close>

datatype json =
    JNull
  | JBool bool
  | JNum real
  | JStr string
  | JArr "json list"
  | JObj "(string \<times> json) list"

text \<open>
  \<^verbatim>\<open>v.name\<close> for a value \<open>v\<close> that is neither \<^verbatim>\<open>null\<close> nor \<^verbatim>\<open>undefined\<close>;
  \<open>None\<close> is \<^verbatim>\<open>undefined\<close>.  The names the server reads (\<^verbatim>\<open>jsonrpc\<close>, \<^verbatim>\<open>id\<close>,
  \<^verbatim>\<open>method\<close>, \<^verbatim>\<open>params\<close>, \<^verbatim>\<open>name\<close>, \<^verbatim>\<open>arguments\<close>, \<^verbatim>\<open>url\<close>) are not defined on
  the prototypes of strings, numbers, booleans or arrays.
\<close>

fun getProp :: "json \<Rightarrow> string \<Rightarrow> json option" where
  "getProp (JObj kvs) k = map_of (rev kvs) k"
| "getProp _ k = None"

text \<open>JavaScript truthiness of a possibly \<^verbatim>\<open>undefined\<close> JSON value (\<^verbatim>\<open>!v\<close> is its negation).\<close>

fun truthy :: "json option \<Rightarrow> bool" where
  "truthy None = False"
| "truthy (Some JNull) = False"
| "truthy (Some (JBool b)) = b"
| "truthy (Some (JNum n)) = (n \<noteq> 0)"
| "truthy (Some (JStr s)) = (s \<noteq> [])"
| "truthy (Some (JArr _)) = True"
| "truthy (Some (JObj _)) = True"

text \<open>
  What a \<^verbatim>\<open>throw\<close> can carry in this program: an instance of the class
  \<^verbatim>\<open>MCPErrorException\<close> (code, message, details), a plain object with a \<^verbatim>\<open>code\<close> property
  (what \<^verbatim>\<open>createMCPError\<close> builds, and the literals \<^verbatim>\<open>{ code: -32601, message }\<close>), or any
  other value without a \<^verbatim>\<open>code\<close> property (an \<^verbatim>\<open>Error\<close> or \<^verbatim>\<open>TypeError\<close>), kept as the
  text \<^verbatim>\<open>String(error)\<close> gives.
\<close>

datatype thrown =
    MCPErrorException string string "json option"
  | ErrorObject json string "json option"
  | JsError string

definition createMCPError :: "string \<Rightarrow> string \<Rightarrow> json option \<Rightarrow> thrown" where
  "createMCPError code message details = ErrorObject (JStr code) message details"

section \<open>Rate limiter (\<^verbatim>\<open>src/rateLimit.ts\<close>)\<close>

record RateLimitEntry =
  count :: int
  resetTime :: int

record RateLimiter =
  limits :: "string \<rightharpoonup> RateLimitEntry"
  windowMs :: int
  maxRequests :: int

text \<open>
  \<^verbatim>\<open>checkLimit\<close>, with \<^verbatim>\<open>Date.now()\<close> as the argument \<open>now\<close>.  The result is the thrown
  value or the normal return, and the limiter after the call.
\<close>

definition checkLimit :: "int \<Rightarrow> string \<Rightarrow> RateLimiter \<Rightarrow> (thrown + unit) \<times> RateLimiter" where
  "checkLimit now clientId rl =
     (let resetTime' = now + windowMs rl;
          fresh = \<lparr>count = 0, resetTime = resetTime'\<rparr>;
          (entry, lims) =
            (case limits rl clientId of
               None \<Rightarrow> (fresh, (limits rl)(clientId \<mapsto> fresh))
             | Some e \<Rightarrow>
                 if now \<ge> resetTime e then (fresh, (limits rl)(clientId \<mapsto> fresh))
                 else (e, limits rl))
      in if count entry \<ge> maxRequests rl then
           (let retryAfterMs = resetTime entry - now
            in (Inl (createMCPError ''RATE_LIMITED'' ''Rate limit exceeded''
                      (Some (JObj [(''retryAfterMs'', JNum (of_int retryAfterMs)),
                                   (''maxRequests'', JNum (of_int (maxRequests rl))),
                                   (''windowMs'', JNum (of_int (windowMs rl)))]))),
                rl\<lparr>limits := lims\<rparr>))
         else (Inr (), rl\<lparr>limits := lims(clientId \<mapsto> entry\<lparr>count := count entry + 1\<rparr>)\<rparr>))"

text \<open>\<^verbatim>\<open>cleanup\<close>: drops every expired entry.\<close>

definition cleanup :: "int \<Rightarrow> RateLimiter \<Rightarrow> RateLimiter" where
  "cleanup now rl =
     rl\<lparr>limits := (\<lambda>k. case limits rl k of
                          None \<Rightarrow> None
                        | Some e \<Rightarrow> if now \<ge> resetTime e then None else Some e)\<rparr>"

text \<open>A run of \<^verbatim>\<open>checkLimit\<close> calls for one key, one call per time stamp, in order.\<close>

fun checkLimits :: "int list \<Rightarrow> string \<Rightarrow> RateLimiter \<Rightarrow> (thrown + unit) list \<times> RateLimiter" where
  "checkLimits [] k rl = ([], rl)"
| "checkLimits (t # ts) k rl =
     (let (r, rl') = checkLimit t k rl;
          (rs, rl'') = checkLimits ts k rl'
      in (r # rs, rl''))"

text \<open>The counter a call at time \<open>now\<close> works with: zero when there is no entry or it has expired.\<close>

definition windowCount :: "int \<Rightarrow> string \<Rightarrow> RateLimiter \<Rightarrow> int" where
  "windowCount now k rl =
     (case limits rl k of
        None \<Rightarrow> 0
      | Some e \<Rightarrow> if now \<ge> resetTime e then 0 else count e)"

text \<open>A call at \<open>now\<close> opens a new window for the key.\<close>

definition opensWindow :: "int \<Rightarrow> string \<Rightarrow> RateLimiter \<Rightarrow> bool" where
  "opensWindow now k rl =
     (case limits rl k of None \<Rightarrow> True | Some e \<Rightarrow> now \<ge> resetTime e)"

text \<open>The number of calls of a run that returned normally.\<close>

definition admitted :: "(thrown + unit) list \<Rightarrow> nat" where
  "admitted rs = length (filter (\<lambda>r. r = Inr ()) rs)"

text \<open>
  The value \<^verbatim>\<open>checkLimit\<close> throws, written out: the object \<^verbatim>\<open>createMCPError\<close> returns for
  the code \<^verbatim>\<open>RATE_LIMITED\<close> with the three details.
\<close>

definition rateLimited :: "int \<Rightarrow> int \<Rightarrow> int \<Rightarrow> thrown" where
  "rateLimited retryAfterMs maxR winMs =
     ErrorObject (JStr ''RATE_LIMITED'') ''Rate limit exceeded''
       (Some (JObj [(''retryAfterMs'', JNum (of_int retryAfterMs)),
                    (''maxRequests'', JNum (of_int maxR)),
                    (''windowMs'', JNum (of_int winMs))]))"

section \<open>Backoff manager (\<^verbatim>\<open>src/rateLimit.ts\<close>)\<close>

definition maxDelay :: int where "maxDelay = 32000"
definition baseDelay :: int where "baseDelay = 1000"

text \<open>
  The test \<^verbatim>\<open>typeof error === "object" && error !== null && "code" in error &&
  error.code === "RATE_LIMITED"\<close>.
\<close>

fun isRateLimited :: "thrown \<Rightarrow> bool" where
  "isRateLimited (MCPErrorException c m d) = (c = ''RATE_LIMITED'')"
| "isRateLimited (ErrorObject c m d) = (c = JStr ''RATE_LIMITED'')"
| "isRateLimited (JsError m) = False"

text \<open>
  \<^verbatim>\<open>withBackoff(key, operation)\<close>.  The outcome of \<^verbatim>\<open>await operation()\<close> is the argument
  \<open>outcome\<close> and \<^verbatim>\<open>Math.random()\<close> is \<open>rnd\<close>.  The result is what the caller sees
  (the value returned or the value thrown), the time slept if any, and the stored delays
  afterwards.  \<^verbatim>\<open>this.delays.get(key) || this.baseDelay\<close> falls back to the base delay for
  a missing entry and for a stored zero.
\<close>

definition withBackoff ::
  "string \<Rightarrow> (thrown + 'a) \<Rightarrow> real \<Rightarrow> (string \<rightharpoonup> int) \<Rightarrow>
     (thrown + 'a) \<times> real option \<times> (string \<rightharpoonup> int)" where
  "withBackoff key outcome rnd delays =
     (case outcome of
        Inr result \<Rightarrow> (Inr result, None, delays(key := None))
      | Inl error \<Rightarrow>
          if isRateLimited error then
            (let currentDelay = (case delays key of
                                   None \<Rightarrow> baseDelay
                                 | Some d \<Rightarrow> if d = 0 then baseDelay else d);
                 nextDelay = min (currentDelay * 2) maxDelay;
                 delays' = delays(key \<mapsto> nextDelay);
                 jitter = of_int currentDelay * 0.25 * (rnd * 2 - 1);
                 delayWithJitter = max 100 (of_int currentDelay + jitter)
             in (Inl error, Some delayWithJitter, delays'))
          else (Inl error, None, delays))"

text \<open>The constructor: no entry for any client.\<close>

definition newRateLimiter :: "int \<Rightarrow> int \<Rightarrow> RateLimiter" where
  "newRateLimiter w m = \<lparr>limits = Map.empty, windowMs = w, maxRequests = m\<rparr>"

text \<open>
  The delay \<^verbatim>\<open>withBackoff\<close> starts from, \<^verbatim>\<open>this.delays.get(key) || this.baseDelay\<close>, named
  for the statements below.
\<close>

definition storedOrBase :: "(string \<rightharpoonup> int) \<Rightarrow> string \<Rightarrow> int" where
  "storedOrBase delays key =
     (case delays key of None \<Rightarrow> baseDelay | Some d \<Rightarrow> if d = 0 then baseDelay else d)"

text \<open>
  The stored delays after a sequence of \<^verbatim>\<open>withBackoff\<close> calls, each given by its key, the
  outcome of its operation and its random number.
\<close>

fun backoffRun ::
  "(string \<times> (thrown + 'a) \<times> real) list \<Rightarrow> (string \<rightharpoonup> int) \<Rightarrow> (string \<rightharpoonup> int)" where
  "backoffRun [] d = d"
| "backoffRun ((k, outcome, rnd) # cs) d =
     backoffRun cs (snd (snd (withBackoff k outcome rnd d)))"

text \<open>The failure \<^verbatim>\<open>handleGoogleCSEError\<close> builds for an upstream status 429.\<close>

definition rateLimitedUpstream :: thrown where
  "rateLimitedUpstream =
     createMCPError ''RATE_LIMITED'' ''Upstream rate limit from Google CSE.''
       (Some (JObj [(''retryAfterMs'', JNum 4000), (''upstreamStatus'', JNum 429)]))"

section \<open>HTTP server (\<^verbatim>\<open>src/httpServer.ts\<close>)\<close>

subsection \<open>Data\<close>

text \<open>Dates are milliseconds since the epoch, as \<^verbatim>\<open>getTime()\<close> reads them.\<close>

record Session =
  sessId :: string
  createdAt :: int
  lastAccessedAt :: int
  initialized :: bool

text \<open>
  A JSON-RPC response, \<^verbatim>\<open>{ jsonrpc: "2.0", id, result }\<close> or \<^verbatim>\<open>{ jsonrpc: "2.0", id, error }\<close>.
  The three shapes of \<^verbatim>\<open>error\<close> are those of the \<^verbatim>\<open>catch\<close> block of
  \<^verbatim>\<open>processJsonRpcRequest\<close>.
\<close>

datatype rpc_error =
    McpInternal string "json option"
  | ErrorValue json string "json option"
  | Internal string

datatype rpc_result =
    InitializeResult json
  | ToolsListResult "string list"
  | ToolCallResult json
  | PingResult

datatype response = Response "json option" "rpc_error + rpc_result"

text \<open>
  What has been written to a \<^verbatim>\<open>ServerResponse\<close> used as an event stream: the line
  \<^verbatim>\<open>id: N\<close>, the line \<^verbatim>\<open>data: JSON\<close> (kept as the value that is serialised), or the
  comment frame \<^verbatim>\<open>: keepalive\<close>.
\<close>

datatype chunk = IdLine int | DataLine response | KeepAlive

text \<open>\<^verbatim>\<open>lastEventId\<close> is a number; \<open>None\<close> is \<^verbatim>\<open>NaN\<close>, which \<^verbatim>\<open>parseInt\<close> may return.\<close>

record SSEStream =
  res :: "chunk list"
  sessionId :: string
  lastEventId :: "int option"
  requestId :: "json option"

record QueuedMessage =
  eventId :: int
  data :: response
  streamKey :: string

datatype effect =
    CheckLimit string
  | CallSearch "json option"
  | CallFetchPage "json option"
  | Sleep real

text \<open>
  The server object.  Stream objects are shared by reference between the registry
  \<^verbatim>\<open>sseStreams\<close> and the handler that created them, so they live in a store
  (\<open>streamHeap\<close>) and the registry holds their addresses; \<open>nextRef\<close> is the next free
  address.
\<close>

record Server =
  sessions :: "string \<rightharpoonup> Session"
  sseStreams :: "string \<rightharpoonup> nat list"
  messageQueues :: "string \<rightharpoonup> QueuedMessage list"
  globalEventId :: int
  rateLimiter :: RateLimiter
  backoffManager :: "string \<rightharpoonup> int"
  streamHeap :: "nat \<rightharpoonup> SSEStream"
  nextRef :: nat

text \<open>
  What one request reads from outside the server: the clock, the UUID generator, the random
  number generator, the outcome of each collaborator on a given input, \<^verbatim>\<open>new URL(u).hostname\<close>
  (\<open>None\<close> when the constructor throws) and JavaScript's conversion of a value to a string in
  a template literal.
\<close>

record Env =
  dateNow :: int
  randomUUID :: string
  mathRandom :: real
  searchOutcome :: "json option \<Rightarrow> thrown + json"
  fetchPageOutcome :: "json option \<Rightarrow> thrown + json"
  urlHostname :: "json option \<Rightarrow> string option"
  jsString :: "json option \<Rightarrow> string"

datatype http_body =
    NoBody
  | JsonBody response
  | ParseErrorBody "thrown option"
  | ErrorBody string
  | HealthBody nat
  | StreamBody nat

record HttpResponse =
  status :: nat
  headers :: "(string \<times> string) list"
  body :: http_body

definition newServer :: "int \<Rightarrow> int \<Rightarrow> Server" where
  "newServer w m =
     \<lparr>sessions = Map.empty, sseStreams = Map.empty, messageQueues = Map.empty,
      globalEventId = 0, rateLimiter = newRateLimiter w m, backoffManager = Map.empty,
      streamHeap = Map.empty, nextRef = 0\<rparr>"

subsection \<open>Small JavaScript idioms\<close>

text \<open>Truthiness of an optional header: \<^verbatim>\<open>undefined\<close> and the empty string are falsy.\<close>

definition present :: "string option \<Rightarrow> bool" where
  "present h = (case h of None \<Rightarrow> False | Some v \<Rightarrow> v \<noteq> [])"

text \<open>The string of a header that is present.\<close>

definition valueOf :: "string option \<Rightarrow> string" where
  "valueOf h = (case h of None \<Rightarrow> [] | Some v \<Rightarrow> v)"

text \<open>\<^verbatim>\<open>a || b\<close> on optional strings.\<close>

definition orElse :: "string option \<Rightarrow> string option \<Rightarrow> string option" where
  "orElse a b = (if present a then a else b)"

text \<open>\<^verbatim>\<open>s.includes(n)\<close>.\<close>

fun includesStr :: "string \<Rightarrow> string \<Rightarrow> bool" where
  "includesStr [] n = (n = [])"
| "includesStr (c # cs) n = (prefix n (c # cs) \<or> includesStr cs n)"

text \<open>
  \<^verbatim>\<open>parseInt(s, 10)\<close>: leading white space is skipped (the ASCII white space characters
  are modelled), then an optional sign, then the longest run of decimal digits; \<open>None\<close>
  is \<^verbatim>\<open>NaN\<close>.
\<close>

definition isWhite :: "char \<Rightarrow> bool" where
  "isWhite c = (c \<in> set [CHR '' '', CHR 0x09, CHR 0x0A, CHR 0x0B, CHR 0x0C, CHR 0x0D])"

definition isDigit :: "char \<Rightarrow> bool" where
  "isDigit c = (c \<in> set ''0123456789'')"

definition digitsValue :: "string \<Rightarrow> int" where
  "digitsValue ds = foldl (\<lambda>acc c. acc * 10 + (int (of_char c) - 48)) 0 ds"

definition parseInt10 :: "string \<Rightarrow> int option" where
  "parseInt10 s =
     (let s1 = dropWhile isWhite s;
          (sign, s2) = (case s1 of
                          [] \<Rightarrow> (1, s1)
                        | c # cs \<Rightarrow> if c = CHR ''-'' then (- 1, cs)
                                    else if c = CHR ''+'' then (1, cs)
                                    else (1, s1));
          ds = takeWhile isDigit s2
      in if ds = [] then None else Some (sign * digitsValue ds))"

subsection \<open>Sessions\<close>

definition sessionTimeout :: int where "sessionTimeout = 3600000"

text \<open>
  \<^verbatim>\<open>cleanupSessions\<close>: every session idle for more than the timeout is deleted from the
  three maps.
\<close>

definition expired :: "int \<Rightarrow> Server \<Rightarrow> string \<Rightarrow> bool" where
  "expired t s k =
     (case sessions s k of
        None \<Rightarrow> False
      | Some session \<Rightarrow> t - lastAccessedAt session > sessionTimeout)"

definition cleanupSessions :: "int \<Rightarrow> Server \<Rightarrow> Server" where
  "cleanupSessions t s =
     s\<lparr>sessions := (\<lambda>k. if expired t s k then None else sessions s k),
       sseStreams := (\<lambda>k. if expired t s k then None else sseStreams s k),
       messageQueues := (\<lambda>k. if expired t s k then None else messageQueues s k)\<rparr>"

definition createSession :: "Env \<Rightarrow> Session" where
  "createSession env =
     \<lparr>sessId = randomUUID env, createdAt = dateNow env, lastAccessedAt = dateNow env,
      initialized = False\<rparr>"

text \<open>\<^verbatim>\<open>getSession\<close>: the lookup that refreshes \<^verbatim>\<open>lastAccessedAt\<close>.\<close>

definition getSession :: "string option \<Rightarrow> Env \<Rightarrow> Server \<Rightarrow> Session option \<times> Server" where
  "getSession sid env s =
     (case sid of
        None \<Rightarrow> (None, s)
      | Some k \<Rightarrow>
          if k = [] then (None, s)
          else (case sessions s k of
                  None \<Rightarrow> (None, s)
                | Some session \<Rightarrow>
                    (let session' = session\<lparr>lastAccessedAt := dateNow env\<rparr>
                     in (Some session', s\<lparr>sessions := (sessions s)(k \<mapsto> session')\<rparr>))))"

subsection \<open>Streams\<close>

text \<open>
  \<^verbatim>\<open>sendSSE(stream, data, eventId?)\<close>, the stream given by its address.  Without an
  \<^verbatim>\<open>eventId\<close> the global counter is incremented and its new value is the id.
\<close>

definition sendSSE :: "nat \<Rightarrow> response \<Rightarrow> int option \<Rightarrow> Server \<Rightarrow> Server" where
  "sendSSE h payload evId s =
     (let (ident, s1) = (case evId of
                           Some e \<Rightarrow> (e, s)
                         | None \<Rightarrow> (globalEventId s + 1, s\<lparr>globalEventId := globalEventId s + 1\<rparr>))
      in s1\<lparr>streamHeap := (streamHeap s1)(h :=
               map_option (\<lambda>stream. stream\<lparr>lastEventId := Some ident,
                                             res := res stream @ [IdLine ident, DataLine payload]\<rparr>)
                 (streamHeap s1 h))\<rparr>)"

definition addSSEStream :: "string \<Rightarrow> nat \<Rightarrow> Server \<Rightarrow> Server" where
  "addSSEStream sid h s =
     s\<lparr>sseStreams := (sseStreams s)(sid \<mapsto>
          (case sseStreams s sid of None \<Rightarrow> [] | Some hs \<Rightarrow> hs) @ [h])\<rparr>"

definition removeSSEStream :: "string \<Rightarrow> nat \<Rightarrow> Server \<Rightarrow> Server" where
  "removeSSEStream sid h s =
     (case sseStreams s sid of
        None \<Rightarrow> s
      | Some hs \<Rightarrow> s\<lparr>sseStreams := (sseStreams s)(sid \<mapsto> remove1 h hs)\<rparr>)"

text \<open>Creating a stream object: it gets the next free address.\<close>

definition newStream :: "SSEStream \<Rightarrow> Server \<Rightarrow> nat \<times> Server" where
  "newStream stream s =
     (nextRef s, s\<lparr>streamHeap := (streamHeap s)(nextRef s \<mapsto> stream), nextRef := Suc (nextRef s)\<rparr>)"

text \<open>The keep-alive timer of a stream opened with GET fires once.\<close>

definition keepAlive :: "nat \<Rightarrow> Server \<Rightarrow> Server" where
  "keepAlive h s =
     s\<lparr>streamHeap := (streamHeap s)(h :=
          map_option (\<lambda>stream. stream\<lparr>res := res stream @ [KeepAlive]\<rparr>) (streamHeap s h))\<rparr>"

subsection \<open>JSON-RPC handlers\<close>

definition initializeResult :: json where
  "initializeResult =
     JObj [(''protocolVersion'', JStr ''2024-11-05''),
           (''capabilities'', JObj [(''tools'', JObj [])]),
           (''serverInfo'', JObj [(''name'', JStr ''news-tools''), (''version'', JStr ''1.0.0'')])]"

definition handleInitialize ::
  "json option \<Rightarrow> string option \<Rightarrow> Env \<Rightarrow> Server \<Rightarrow> (json \<times> string) \<times> Server" where
  "handleInitialize params sid env s =
     (let created = createSession env;
          (k, session) =
            (case sid of
               None \<Rightarrow> (sessId created, created)
             | Some v \<Rightarrow>
                 if v = [] then (sessId created, created)
                 else (case sessions s v of
                         None \<Rightarrow> (sessId created, created)
                       | Some existing \<Rightarrow> (v, existing)))
      in ((initializeResult, sessId session),
          s\<lparr>sessions := (sessions s)(k \<mapsto> session\<lparr>initialized := True\<rparr>)\<rparr>))"

text \<open>\<^verbatim>\<open>handleToolsList\<close>: the static catalogue, kept by the names of its two tools.\<close>

definition handleToolsList :: "string list" where
  "handleToolsList = [''google_news_search'', ''fetch_page'']"

text \<open>A value whose properties can be read: neither \<^verbatim>\<open>undefined\<close> nor \<^verbatim>\<open>null\<close>.\<close>

definition nonNullish :: "json option \<Rightarrow> json option" where
  "nonNullish v = (case v of None \<Rightarrow> None | Some JNull \<Rightarrow> None | Some w \<Rightarrow> Some w)"

text \<open>\<^verbatim>\<open>new URL(input.url).hostname\<close>; \<open>None\<close> when reading it throws.\<close>

definition inputHostname :: "Env \<Rightarrow> json option \<Rightarrow> string option" where
  "inputHostname env args =
     (case nonNullish args of
        None \<Rightarrow> None
      | Some input \<Rightarrow> urlHostname env (getProp input ''url''))"

text \<open>The \<^verbatim>\<open>await this.sleep(...)\<close> of \<^verbatim>\<open>withBackoff\<close>, when there was one.\<close>

definition sleeps :: "real option \<Rightarrow> effect list" where
  "sleeps slept = (case slept of None \<Rightarrow> [] | Some ms \<Rightarrow> [Sleep ms])"

text \<open>
  \<^verbatim>\<open>handleToolCall\<close>.  The result is the value returned or thrown, the calls made in
  order, and the server afterwards.  Reading \<^verbatim>\<open>input.url\<close> of a missing \<^verbatim>\<open>arguments\<close>
  object and \<^verbatim>\<open>new URL\<close> of an invalid address throw a \<^verbatim>\<open>TypeError\<close> before
  \<^verbatim>\<open>withBackoff\<close> is entered; the text of the engine's message is not modelled.
\<close>

definition handleToolCall ::
  "json option \<Rightarrow> json option \<Rightarrow> Env \<Rightarrow> Server \<Rightarrow> (thrown + json) \<times> effect list \<times> Server" where
  "handleToolCall name args env s =
     (case checkLimit (dateNow env) ''default-client'' (rateLimiter s) of
        (Inl error, rl) \<Rightarrow> (Inl error, [CheckLimit ''default-client''], s\<lparr>rateLimiter := rl\<rparr>)
      | (Inr _, rl) \<Rightarrow>
          (let s1 = s\<lparr>rateLimiter := rl\<rparr> in
           if name = Some (JStr ''google_news_search'') then
             (case withBackoff ''google-cse'' (searchOutcome env args) (mathRandom env)
                     (backoffManager s1) of
                (outcome, slept, delays) \<Rightarrow>
                  (outcome,
                   [CheckLimit ''default-client'', CallSearch args] @ sleeps slept,
                   s1\<lparr>backoffManager := delays\<rparr>))
           else if name = Some (JStr ''fetch_page'') then
             (case inputHostname env args of
                None \<Rightarrow> (Inl (JsError ''TypeError''), [CheckLimit ''default-client''], s1)
              | Some hostname \<Rightarrow>
                  (case withBackoff (''fetch-'' @ hostname) (fetchPageOutcome env args)
                          (mathRandom env) (backoffManager s1) of
                     (outcome, slept, delays) \<Rightarrow>
                       (outcome,
                        [CheckLimit ''default-client'', CallFetchPage args] @ sleeps slept,
                        s1\<lparr>backoffManager := delays\<rparr>)))
           else (Inl (JsError (''Error: Unknown tool: '' @ jsString env name)),
                 [CheckLimit ''default-client''], s1)))"

text \<open>
  The body of the \<^verbatim>\<open>try\<close> block of \<^verbatim>\<open>processJsonRpcRequest\<close>: the \<^verbatim>\<open>switch\<close> on the
  method.  A normal return carries the result and, for \<^verbatim>\<open>initialize\<close>, the session id.
\<close>

definition dispatchMethod ::
  "json option \<Rightarrow> json option \<Rightarrow> string option \<Rightarrow> Env \<Rightarrow> Server \<Rightarrow>
     (thrown + rpc_result \<times> string option) \<times> effect list \<times> Server" where
  "dispatchMethod method params sid env s =
     (if method = Some (JStr ''initialize'') then
        (case handleInitialize params sid env s of
           ((result, newSessionId), s') \<Rightarrow>
             (Inr (InitializeResult result, Some newSessionId), [], s'))
      else if method = Some (JStr ''tools/list'') then
        (Inr (ToolsListResult handleToolsList, None), [], s)
      else if method = Some (JStr ''tools/call'') then
        (case nonNullish params of
           None \<Rightarrow> (Inl (JsError ''TypeError''), [], s)
         | Some p \<Rightarrow>
             (case handleToolCall (getProp p ''name'') (getProp p ''arguments'') env s of
                (Inl error, effs, s') \<Rightarrow> (Inl error, effs, s')
              | (Inr result, effs, s') \<Rightarrow> (Inr (ToolCallResult result, None), effs, s')))
      else if method = Some (JStr ''ping'') then
        (Inr (PingResult, None), [], s)
      else
        (Inl (ErrorObject (JNum (- 32601)) (''Method not found: '' @ jsString env method) None),
         [], s))"

text \<open>The \<^verbatim>\<open>catch\<close> block: the \<^verbatim>\<open>error\<close> member of the response for a thrown value.\<close>

fun mapError :: "thrown \<Rightarrow> rpc_error" where
  "mapError (MCPErrorException c m d) = McpInternal m d"
| "mapError (ErrorObject c m d) = ErrorValue c m d"
| "mapError (JsError m) = Internal m"

definition invalidRequest :: thrown where
  "invalidRequest =
     ErrorObject (JNum (- 32600))
       (''Invalid Request: jsonrpc must be '' @ [CHR 0x27] @ ''2.0'' @ [CHR 0x27]) None"

text \<open>
  \<^verbatim>\<open>processJsonRpcRequest\<close>.  Destructuring \<^verbatim>\<open>null\<close> and the check of the protocol tag
  throw outside the \<^verbatim>\<open>try\<close> block, so these two failures reach the caller.
\<close>

definition processJsonRpcRequest ::
  "json \<Rightarrow> string option \<Rightarrow> Env \<Rightarrow> Server \<Rightarrow>
     (thrown + response \<times> string option) \<times> effect list \<times> Server" where
  "processJsonRpcRequest message sid env s =
     (if message = JNull then (Inl (JsError ''TypeError''), [], s)
      else if getProp message ''jsonrpc'' \<noteq> Some (JStr ''2.0'') then (Inl invalidRequest, [], s)
      else
        (case dispatchMethod (getProp message ''method'') (getProp message ''params'') sid env s of
           (Inr (result, newSessionId), effs, s') \<Rightarrow>
             (Inr (Response (getProp message ''id'') (Inr result), newSessionId), effs, s')
         | (Inl error, effs, s') \<Rightarrow>
             (Inr (Response (getProp message ''id'') (Inl (mapError error)), None), effs, s')))"

subsection \<open>HTTP handlers\<close>

text \<open>
  A request is one step of the server: what the awaited collaborator returns or throws is
  an input of the step, and no other request runs in between.  A response is its status,
  the headers given to \<^verbatim>\<open>writeHead\<close> and its body; the CORS headers, which
  \<^verbatim>\<open>setCORSHeaders\<close> puts on every response, are left out.
\<close>

definition parseError :: "thrown option \<Rightarrow> HttpResponse" where
  "parseError e =
     \<lparr>status = 400, headers = [(''Content-Type'', ''application/json'')], body = ParseErrorBody e\<rparr>"

definition accepted :: HttpResponse where
  "accepted = \<lparr>status = 202, headers = [], body = NoBody\<rparr>"

definition sessionHeader :: "string option \<Rightarrow> (string \<times> string) list" where
  "sessionHeader newSessionId =
     (case newSessionId of
        None \<Rightarrow> []
      | Some v \<Rightarrow> if v = [] then [] else [(''Mcp-Session-Id'', v)])"

definition sseHeaders :: "(string \<times> string) list" where
  "sseHeaders =
     [(''Content-Type'', ''text/event-stream''), (''Cache-Control'', ''no-cache''),
      (''Connection'', ''keep-alive'')]"

text \<open>
  \<^verbatim>\<open>handlePost\<close>, given the two request headers it reads and the outcome of
  \<^verbatim>\<open>JSON.parse(body)\<close> (\<open>None\<close> when it throws).  The timer that ends the stream
  100 ms later is \<open>closePostStream\<close>.
\<close>

definition handlePost ::
  "string option \<Rightarrow> string option \<Rightarrow> json option \<Rightarrow> Env \<Rightarrow> Server \<Rightarrow>
     HttpResponse \<times> effect list \<times> Server" where
  "handlePost sid acceptHeader parsed env s =
     (let supportsSSE = includesStr (case acceptHeader of None \<Rightarrow> [] | Some a \<Rightarrow> a)
                          ''text/event-stream''
      in case parsed of
           None \<Rightarrow> (parseError None, [], s)
         | Some message \<Rightarrow>
             (case processJsonRpcRequest message sid env s of
                (Inl error, effs, s1) \<Rightarrow> (parseError (Some error), effs, s1)
              | (Inr (response, newSessionId), effs, s1) \<Rightarrow>
                  if \<not> truthy (getProp message ''id'') then (accepted, effs, s1)
                  else if supportsSSE then
                    (let owner = orElse newSessionId sid;
                         (h, s2) = newStream
                                     \<lparr>res = [],
                                      sessionId = (if present owner then valueOf owner else ''default''),
                                      lastEventId = Some 0,
                                      requestId = getProp message ''id''\<rparr> s1;
                         s3 = (if present owner then addSSEStream (valueOf owner) h s2 else s2);
                         s4 = sendSSE h response None s3
                     in (\<lparr>status = 200, headers = sseHeaders @ sessionHeader newSessionId,
                          body = StreamBody h\<rparr>, effs, s4))
                  else
                    (\<lparr>status = 200,
                      headers = (''Content-Type'', ''application/json'') # sessionHeader newSessionId,
                      body = JsonBody response\<rparr>, effs, s1)))"

definition closePostStream :: "string option \<Rightarrow> nat \<Rightarrow> Server \<Rightarrow> Server" where
  "closePostStream owner h s = (if present owner then removeSSEStream (valueOf owner) h s else s)"

text \<open>The replay loop of \<^verbatim>\<open>handleGet\<close>; a comparison with \<^verbatim>\<open>NaN\<close> is false.\<close>

fun replay :: "nat \<Rightarrow> int option \<Rightarrow> QueuedMessage list \<Rightarrow> Server \<Rightarrow> Server" where
  "replay h lastId [] s = s"
| "replay h lastId (msg # queue) s =
     replay h lastId queue
       (if (case lastId of None \<Rightarrow> False | Some n \<Rightarrow> eventId msg > n)
        then sendSSE h (data msg) (Some (eventId msg)) s else s)"

definition handleGet ::
  "string option \<Rightarrow> string option \<Rightarrow> string option \<Rightarrow> Server \<Rightarrow> HttpResponse \<times> Server" where
  "handleGet sid lastEventIdHeader acceptHeader s =
     (if \<not> includesStr (case acceptHeader of None \<Rightarrow> [] | Some a \<Rightarrow> a) ''text/event-stream''
      then (\<lparr>status = 405, headers = [], body = NoBody\<rparr>, s)
      else if present sid \<and> sessions s (valueOf sid) = None
      then (\<lparr>status = 404, headers = [(''Content-Type'', ''application/json'')],
             body = ErrorBody ''Session not found''\<rparr>, s)
      else
        (let (h, s1) = newStream
                         \<lparr>res = [],
                          sessionId = (if present sid then valueOf sid else ''default''),
                          lastEventId = (if present lastEventIdHeader
                                         then parseInt10 (valueOf lastEventIdHeader) else Some 0),
                          requestId = None\<rparr> s;
             s2 = (if present sid then
                     (let s' = addSSEStream (valueOf sid) h s1
                      in if present lastEventIdHeader then
                           replay h (parseInt10 (valueOf lastEventIdHeader))
                             (case messageQueues s' (valueOf sid) of None \<Rightarrow> [] | Some q \<Rightarrow> q) s'
                         else s')
                   else s1)
         in (\<lparr>status = 200, headers = sseHeaders, body = StreamBody h\<rparr>, s2)))"

text \<open>The \<^verbatim>\<open>close\<close> event of a request that opened a stream with GET.\<close>

definition closeGetStream :: "string option \<Rightarrow> nat \<Rightarrow> Server \<Rightarrow> Server" where
  "closeGetStream sid h s = (if present sid then removeSSEStream (valueOf sid) h s else s)"

definition handleDelete :: "string option \<Rightarrow> Server \<Rightarrow> HttpResponse \<times> Server" where
  "handleDelete sid s =
     (if \<not> present sid
      then (\<lparr>status = 400, headers = [(''Content-Type'', ''application/json'')],
             body = ErrorBody ''Missing Mcp-Session-Id header''\<rparr>, s)
      else if sessions s (valueOf sid) \<noteq> None
      then (\<lparr>status = 200, headers = [], body = NoBody\<rparr>,
            s\<lparr>sessions := (sessions s)(valueOf sid := None),
              sseStreams := (sseStreams s)(valueOf sid := None),
              messageQueues := (messageQueues s)(valueOf sid := None)\<rparr>)
      else (\<lparr>status = 404, headers = [], body = NoBody\<rparr>, s))"

text \<open>
  The request listener of \<^verbatim>\<open>createHttpServer\<close>.  \<^verbatim>\<open>validateOrigin\<close> returns
  \<^verbatim>\<open>true\<close> on both of its paths.
\<close>

record Request =
  httpMethod :: string
  url :: string
  hdrSession :: "string option"
  hdrLastEventId :: "string option"
  hdrAccept :: "string option"
  hdrOrigin :: "string option"
  parsedBody :: "json option"

definition validateOrigin :: "Request \<Rightarrow> bool" where
  "validateOrigin req =
     (if present (hdrOrigin req) \<and>
         (includesStr (valueOf (hdrOrigin req)) ''localhost'' \<or>
          includesStr (valueOf (hdrOrigin req)) ''127.0.0.1'' \<or>
          includesStr (valueOf (hdrOrigin req)) ''0.0.0.0'')
      then True else True)"

definition sessionCount :: "Server \<Rightarrow> nat" where
  "sessionCount s = card (dom (sessions s))"

definition handleRequest :: "Request \<Rightarrow> Env \<Rightarrow> Server \<Rightarrow> HttpResponse \<times> effect list \<times> Server" where
  "handleRequest req env s =
     (if \<not> validateOrigin req then
        (\<lparr>status = 403, headers = [(''Content-Type'', ''application/json'')],
          body = ErrorBody ''Invalid origin''\<rparr>, [], s)
      else if httpMethod req = ''OPTIONS'' then
        (\<lparr>status = 200, headers = [], body = NoBody\<rparr>, [], s)
      else if httpMethod req = ''GET'' \<and> url req = ''/health'' then
        (\<lparr>status = 200, headers = [(''Content-Type'', ''application/json'')],
          body = HealthBody (sessionCount s)\<rparr>, [], s)
      else if url req = ''/mcp'' \<or> url req = ''/'' then
        (if httpMethod req = ''POST'' then
           handlePost (hdrSession req) (hdrAccept req) (parsedBody req) env s
         else if httpMethod req = ''GET'' then
           (case handleGet (hdrSession req) (hdrLastEventId req) (hdrAccept req) s of
              (r, s') \<Rightarrow> (r, [], s'))
         else if httpMethod req = ''DELETE'' then
           (case handleDelete (hdrSession req) s of (r, s') \<Rightarrow> (r, [], s'))
         else (\<lparr>status = 405, headers = [], body = NoBody\<rparr>, [], s))
      else
        (\<lparr>status = 404, headers = [(''Content-Type'', ''application/json'')],
          body = ErrorBody ''Not found''\<rparr>, [], s))"

subsection \<open>Well-formed session maps\<close>

text \<open>
  Every session is stored under its own id, and no id is the empty string.  The map of a
  new server satisfies this, and every handler keeps it as long as \<^verbatim>\<open>randomUUID\<close> does
  not return the empty string.
\<close>

definition sessionsWf :: "Server \<Rightarrow> bool" where
  "sessionsWf s = (\<forall>k session. sessions s k = Some session \<longrightarrow> sessId session = k \<and> k \<noteq> [])"

text \<open>
  The states a server can be in: it starts as \<^verbatim>\<open>new MCPHttpServer(config)\<close> and then
  serves requests, runs its hourly sweep, and sees its streams written to by the keep-alive
  timer and closed.  \<^verbatim>\<open>randomUUID\<close> returns a 36-character string, never the empty one.
\<close>

inductive reachable :: "int \<Rightarrow> int \<Rightarrow> Server \<Rightarrow> bool" for w m where
  started: "reachable w m (newServer w m)"
| served: "reachable w m s \<Longrightarrow> randomUUID env \<noteq> [] \<Longrightarrow>
           reachable w m (snd (snd (handleRequest req env s)))"
| swept: "reachable w m s \<Longrightarrow> reachable w m (cleanupSessions t s)"
| kept_alive: "reachable w m s \<Longrightarrow> reachable w m (keepAlive h s)"
| post_closed: "reachable w m s \<Longrightarrow> reachable w m (closePostStream owner h s)"
| get_closed: "reachable w m s \<Longrightarrow> reachable w m (closeGetStream sid h s)"

section \<open>Concrete requests and runs\<close>

definition envAt :: "int \<Rightarrow> string \<Rightarrow> Env" where
  "envAt t u =
     \<lparr>dateNow = t, randomUUID = u, mathRandom = 0,
      searchOutcome = (\<lambda>input. Inr (JObj [(''articles'', JArr [])])),
      fetchPageOutcome = (\<lambda>input. Inl (createMCPError ''TIMEOUT'' ''Request timeout'' None)),
      urlHostname = (\<lambda>u. None),
      jsString = (\<lambda>v. case v of Some (JStr t) \<Rightarrow> t | _ \<Rightarrow> ''undefined'')\<rparr>"

definition initializeMsg :: json where
  "initializeMsg =
     JObj [(''jsonrpc'', JStr ''2.0''), (''id'', JNum 1), (''method'', JStr ''initialize'')]"

definition toolsListMsg :: json where
  "toolsListMsg =
     JObj [(''jsonrpc'', JStr ''2.0''), (''id'', JNum 2), (''method'', JStr ''tools/list'')]"

definition searchArgs :: json where
  "searchArgs = JObj [(''topic'', JStr ''artificial intelligence'')]"

definition searchCallMsg :: json where
  "searchCallMsg =
     JObj [(''jsonrpc'', JStr ''2.0''), (''id'', JNum 3), (''method'', JStr ''tools/call''),
           (''params'', JObj [(''name'', JStr ''google_news_search''),
                              (''arguments'', searchArgs)])]"

text \<open>A notification without the protocol tag: a method and no id.\<close>

definition untaggedNotification :: json where
  "untaggedNotification = JObj [(''method'', JStr ''ping'')]"

text \<open>A notification whose handler fails: the unknown method is mapped to an error.\<close>

definition failingNotification :: json where
  "failingNotification =
     JObj [(''jsonrpc'', JStr ''2.0''), (''method'', JStr ''notifications/cancelled'')]"

text \<open>A request whose id is the number zero.\<close>

definition pingZeroMsg :: json where
  "pingZeroMsg =
     JObj [(''jsonrpc'', JStr ''2.0''), (''id'', JNum 0), (''method'', JStr ''ping'')]"

text \<open>
  A server after \<^verbatim>\<open>initialize\<close> at time 0, which creates the session \<^verbatim>\<open>session-1\<close>.
\<close>

definition afterInitialize :: Server where
  "afterInitialize =
     snd (snd (handlePost None (Some ''application/json'') (Some initializeMsg)
                 (envAt 0 ''session-1'') (newServer 60000 120)))"

text \<open>Then \<^verbatim>\<open>tools/list\<close> is posted for that session, answered as an event stream.\<close>

definition afterStreamedReply :: Server where
  "afterStreamedReply =
     snd (snd (handlePost (Some ''session-1'') (Some ''application/json, text/event-stream'')
                 (Some toolsListMsg) (envAt 10 ''unused'') afterInitialize))"

text \<open>A listener opens a stream with GET for the session, before anything is sent.\<close>

definition afterListen :: Server where
  "afterListen =
     snd (handleGet (Some ''session-1'') None (Some ''text/event-stream'') afterInitialize)"

text \<open>Then \<^verbatim>\<open>tools/list\<close> is posted for the same session, answered as an event stream.\<close>

definition afterListenAndReply :: Server where
  "afterListenAndReply =
     snd (snd (handlePost (Some ''session-1'') (Some ''text/event-stream'')
                 (Some toolsListMsg) (envAt 10 ''unused'') afterListen))"

text \<open>
  A request for the session 7000 seconds after \<^verbatim>\<open>initialize\<close>.  With the server started
  one second before \<^verbatim>\<open>initialize\<close>, the hourly sweep runs at 3599000 and at 7199000.
\<close>

definition afterLateRequest :: Server where
  "afterLateRequest =
     snd (snd (handlePost (Some ''session-1'') (Some ''application/json'')
                 (Some toolsListMsg) (envAt 7000000 ''unused'')
                 (cleanupSessions 3599000 afterInitialize)))"

section \<open>The rate limiter\<close>

subsection \<open>Single calls\<close>

lemma checkLimit_live_admit:
  assumes "limits rl k = Some e" "now < resetTime e" "count e < maxRequests rl"
  shows "checkLimit now k rl = (Inr (), rl\<lparr>limits := (limits rl)(k \<mapsto> e\<lparr>count := count e + 1\<rparr>)\<rparr>)"
  using assms by (simp add: checkLimit_def)

lemma checkLimit_live_reject:
  assumes "limits rl k = Some e" "now < resetTime e" "maxRequests rl \<le> count e"
  shows "checkLimit now k rl =
           (Inl (rateLimited (resetTime e - now) (maxRequests rl) (windowMs rl)), rl)"
  using assms by (simp add: checkLimit_def rateLimited_def createMCPError_def)

lemma checkLimit_open_admit:
  assumes "opensWindow now k rl" "0 < maxRequests rl"
  shows "checkLimit now k rl =
           (Inr (), rl\<lparr>limits := (limits rl)(k \<mapsto> \<lparr>count = 1, resetTime = now + windowMs rl\<rparr>)\<rparr>)"
  using assms by (auto simp: checkLimit_def opensWindow_def split: option.splits)

lemma checkLimit_open_reject:
  assumes "opensWindow now k rl" "maxRequests rl \<le> 0"
  shows "checkLimit now k rl =
           (Inl (rateLimited (windowMs rl) (maxRequests rl) (windowMs rl)),
            rl\<lparr>limits := (limits rl)(k \<mapsto> \<lparr>count = 0, resetTime = now + windowMs rl\<rparr>)\<rparr>)"
  using assms
  by (auto simp: checkLimit_def opensWindow_def rateLimited_def createMCPError_def
           split: option.splits)

lemma checkLimit_reject_count:
  assumes "checkLimit now k rl = (Inl err, rl')"
  shows "\<exists>e. limits rl' k = Some e \<and> count e = windowCount now k rl"
  using assms
  by (auto simp: checkLimit_def windowCount_def Let_def split: option.splits if_splits)

lemma checkLimit_admit_count:
  assumes "checkLimit now k rl = (Inr u, rl')"
  shows "\<exists>e. limits rl' k = Some e \<and> count e = windowCount now k rl + 1"
  using assms
  by (auto simp: checkLimit_def windowCount_def Let_def split: option.splits if_splits)

subsection \<open>Runs of calls inside one window\<close>

lemma checkLimits_Cons:
  assumes "checkLimit t k rl = (r, rl')" "checkLimits ts k rl' = (rs, rl'')"
  shows "checkLimits (t # ts) k rl = (r # rs, rl'')"
  using assms by simp

lemma checkLimits_live_admit_all:
  assumes "limits rl k = Some e" "\<forall>t\<in>set ts. t < resetTime e"
    and "count e + int (length ts) \<le> maxRequests rl"
  shows "checkLimits ts k rl =
           (replicate (length ts) (Inr ()),
            rl\<lparr>limits := (limits rl)(k \<mapsto> e\<lparr>count := count e + int (length ts)\<rparr>)\<rparr>)"
  using assms
proof (induction ts arbitrary: rl e)
  case Nil
  then show ?case by (simp add: map_upd_triv)
next
  case (Cons t ts)
  let ?e' = "e\<lparr>count := count e + 1\<rparr>"
  let ?rl' = "rl\<lparr>limits := (limits rl)(k \<mapsto> ?e')\<rparr>"
  let ?rl'' = "rl\<lparr>limits := (limits rl)(k \<mapsto> e\<lparr>count := count e + int (length (t # ts))\<rparr>)\<rparr>"
  have step: "checkLimit t k rl = (Inr (), ?rl')"
    using Cons.prems by (intro checkLimit_live_admit) auto
  have "checkLimits ts k ?rl' =
          (replicate (length ts) (Inr ()),
           ?rl'\<lparr>limits := (limits ?rl')(k \<mapsto> ?e'\<lparr>count := count ?e' + int (length ts)\<rparr>)\<rparr>)"
    using Cons.prems by (intro Cons.IH) auto
  also have "?rl'\<lparr>limits := (limits ?rl')(k \<mapsto> ?e'\<lparr>count := count ?e' + int (length ts)\<rparr>)\<rparr> = ?rl''"
    by (simp add: add.assoc)
  finally have rest: "checkLimits ts k ?rl' = (replicate (length ts) (Inr ()), ?rl'')" .
  show ?case
    using checkLimits_Cons[OF step rest] by (simp only: length_Cons replicate_Suc)
qed

lemma checkLimits_live_reject_all:
  assumes "limits rl k = Some e" "\<forall>t\<in>set ts. t < resetTime e"
    and "maxRequests rl \<le> count e"
  shows "admitted (fst (checkLimits ts k rl)) = 0 \<and> snd (checkLimits ts k rl) = rl"
  using assms
proof (induction ts)
  case Nil
  then show ?case by (simp add: admitted_def)
next
  case (Cons t ts)
  have "checkLimit t k rl =
          (Inl (rateLimited (resetTime e - t) (maxRequests rl) (windowMs rl)), rl)"
    using Cons.prems by (intro checkLimit_live_reject) auto
  moreover have "admitted (fst (checkLimits ts k rl)) = 0 \<and> snd (checkLimits ts k rl) = rl"
    using Cons by auto
  ultimately show ?case
    by (simp add: admitted_def split_beta rateLimited_def)
qed

lemma admitted_replicate: "admitted (replicate n (Inr ())) = n"
  by (simp add: admitted_def)

lemma admitted_append: "admitted (xs @ ys) = admitted xs + admitted ys"
  by (simp add: admitted_def)

lemma checkLimits_append:
  "checkLimits (ts @ us) k rl =
     (fst (checkLimits ts k rl) @ fst (checkLimits us k (snd (checkLimits ts k rl))),
      snd (checkLimits us k (snd (checkLimits ts k rl))))"
  by (induction ts arbitrary: rl) (auto simp: split_beta)

lemma checkLimits_live_admitted:
  assumes "limits rl k = Some e" "\<forall>t\<in>set ts. t < resetTime e" "count e \<le> maxRequests rl"
  shows "admitted (fst (checkLimits ts k rl)) = min (length ts) (nat (maxRequests rl - count e))"
proof (cases "count e + int (length ts) \<le> maxRequests rl")
  case True
  then show ?thesis
    using checkLimits_live_admit_all[OF assms(1,2) True] by (simp add: admitted_replicate)
next
  case False
  define m where "m = nat (maxRequests rl - count e)"
  have m: "m < length ts" "count e + int m = maxRequests rl"
    using False assms(3) by (auto simp: m_def)
  let ?ts1 = "take m ts" and ?ts2 = "drop m ts"
  have len1: "length ?ts1 = m" using m by simp
  have in1: "\<forall>t\<in>set ?ts1. t < resetTime e" using assms(2) by (meson in_set_takeD)
  have in2: "\<forall>t\<in>set ?ts2. t < resetTime e" using assms(2) by (meson in_set_dropD)
  let ?e' = "e\<lparr>count := count e + int m\<rparr>"
  let ?rl' = "rl\<lparr>limits := (limits rl)(k \<mapsto> ?e')\<rparr>"
  have r1: "checkLimits ?ts1 k rl = (replicate m (Inr ()), ?rl')"
    using checkLimits_live_admit_all[OF assms(1) in1] m len1 by simp
  have r2: "admitted (fst (checkLimits ?ts2 k ?rl')) = 0"
    using checkLimits_live_reject_all[of ?rl' k ?e' ?ts2] in2 m by simp
  have "checkLimits ts k rl = checkLimits (?ts1 @ ?ts2) k rl" by simp
  also have "fst \<dots> = replicate m (Inr ()) @ fst (checkLimits ?ts2 k ?rl')"
    unfolding checkLimits_append r1 by simp
  finally have f: "fst (checkLimits ts k rl) =
      replicate m (Inr ()) @ fst (checkLimits ?ts2 k ?rl')" .
  have "admitted (fst (checkLimits ts k rl)) =
      admitted (replicate m (Inr ())) + admitted (fst (checkLimits ?ts2 k ?rl'))"
    by (simp only: f admitted_append)
  also have "\<dots> = m" by (simp only: r2 admitted_replicate add_0_right)
  finally show ?thesis using m by (simp add: m_def)
qed

text \<open>
  Claim C5.  With \<^verbatim>\<open>windowMs = 60000\<close> and \<^verbatim>\<open>max = 120\<close>, for every key: when a call at
  \<open>t0\<close> opens a window, that call and the next 119 calls made before \<open>t0 + 60000\<close> all
  succeed; a 121st call at a time \<open>t121\<close> inside the window throws the \<^verbatim>\<open>RATE_LIMITED\<close>
  error whose \<^verbatim>\<open>retryAfterMs\<close> is the remaining window time \<open>t0 + 60000 - t121\<close> and
  leaves the limiter as it was; for a call at a time \<open>t'\<close> at or after the end of the window
  the counter counts as zero, the call succeeds and starts a new window with count 1.
\<close>

theorem checkLimit_121st_call_rejected:
  assumes cfg: "windowMs rl = 60000" "maxRequests rl = 120"
    and opn: "opensWindow t0 k rl"
    and len: "length ts = 119"
    and within: "\<forall>t\<in>set ts. t < t0 + 60000"
    and run: "checkLimits (t0 # ts) k rl = (rs, rl1)"
    and t121: "t121 < t0 + 60000"
    and later: "t0 + 60000 \<le> t'"
  shows "rs = replicate 120 (Inr ()) \<and>
         checkLimit t121 k rl1 = (Inl (rateLimited (t0 + 60000 - t121) 120 60000), rl1) \<and>
         windowCount t' k rl1 = 0 \<and>
         (\<exists>rl2. checkLimit t' k rl1 = (Inr (), rl2) \<and>
                limits rl2 k = Some \<lparr>count = 1, resetTime = t' + 60000\<rparr>)"
proof -
  let ?e = "\<lparr>count = 1, resetTime = t0 + 60000\<rparr>"
  let ?rl' = "rl\<lparr>limits := (limits rl)(k \<mapsto> ?e)\<rparr>"
  let ?full = "\<lparr>count = 120, resetTime = t0 + 60000\<rparr>"
  let ?rl1 = "rl\<lparr>limits := (limits rl)(k \<mapsto> ?full)\<rparr>"
  have step: "checkLimit t0 k rl = (Inr (), ?rl')"
    using checkLimit_open_admit[OF opn] cfg by simp
  have "checkLimits ts k ?rl' =
          (replicate (length ts) (Inr ()),
           ?rl'\<lparr>limits := (limits ?rl')(k \<mapsto> ?e\<lparr>count := count ?e + int (length ts)\<rparr>)\<rparr>)"
    using within cfg len by (intro checkLimits_live_admit_all) auto
  also have "?rl'\<lparr>limits := (limits ?rl')(k \<mapsto> ?e\<lparr>count := count ?e + int (length ts)\<rparr>)\<rparr> = ?rl1"
    using len by simp
  finally have "checkLimits ts k ?rl' = (replicate (length ts) (Inr ()), ?rl1)" .
  then have rest: "checkLimits ts k ?rl' = (replicate 119 (Inr ()), ?rl1)"
    by (simp only: len)
  have "checkLimits (t0 # ts) k rl = (Inr () # replicate 119 (Inr ()), ?rl1)"
    by (rule checkLimits_Cons[OF step rest])
  with run have rs: "rs = Inr () # replicate 119 (Inr ())" and rl1: "rl1 = ?rl1"
    by simp_all
  have full: "limits rl1 k = Some ?full" "windowMs rl1 = 60000" "maxRequests rl1 = 120"
    using cfg by (simp_all add: rl1)
  have a: "rs = replicate 120 (Inr ())"
    unfolding rs by (simp add: numeral_eq_Suc)
  have b: "checkLimit t121 k rl1 = (Inl (rateLimited (t0 + 60000 - t121) 120 60000), rl1)"
    using checkLimit_live_reject[OF full(1), of t121] t121 full(2,3) by simp
  have c: "windowCount t' k rl1 = 0"
    using later by (simp add: windowCount_def full(1))
  have opn': "opensWindow t' k rl1"
    using later by (simp add: opensWindow_def full(1))
  have d: "\<exists>rl2. checkLimit t' k rl1 = (Inr (), rl2) \<and>
                limits rl2 k = Some \<lparr>count = 1, resetTime = t' + 60000\<rparr>"
    using checkLimit_open_admit[OF opn'] full(2,3) by simp
  from a b c d show ?thesis by blast
qed

theorem checkLimit_121st_call_rejected_witness:
  "opensWindow 0 ''default-client'' (newRateLimiter 60000 120) \<and>
   fst (checkLimits (0 # replicate 119 1) ''default-client'' (newRateLimiter 60000 120))
     = replicate 120 (Inr ()) \<and>
   fst (checkLimit 59999 ''default-client''
         (snd (checkLimits (0 # replicate 119 1) ''default-client'' (newRateLimiter 60000 120))))
     = Inl (rateLimited 1 120 60000) \<and>
   windowCount 60000 ''default-client''
     (snd (checkLimits (0 # replicate 119 1) ''default-client'' (newRateLimiter 60000 120))) = 0"
proof -
  let ?rl = "newRateLimiter 60000 120"
  let ?run = "checkLimits (0 # replicate 119 1) ''default-client'' ?rl"
  have h1: "windowMs ?rl = 60000" and h2: "maxRequests ?rl = 120"
    by (simp_all add: newRateLimiter_def)
  have h3: "opensWindow 0 ''default-client'' ?rl"
    by (simp add: newRateLimiter_def opensWindow_def)
  have h4: "length (replicate 119 (1::int)) = 119" by simp
  have h5: "\<forall>t\<in>set (replicate 119 (1::int)). t < 0 + 60000" by simp
  have h6: "?run = (fst ?run, snd ?run)" by (rule surjective_pairing)
  have h7: "(59999::int) < 0 + 60000" and h8: "(0::int) + 60000 \<le> 60000" by simp_all
  from checkLimit_121st_call_rejected[OF h1 h2 h3 h4 h5 h6 h7 h8] h3
  show ?thesis by simp
qed

text \<open>
  Claim C10.  For every key, a \<^verbatim>\<open>checkLimit\<close> call that throws leaves the counter of the
  key at the value the call found (it is not incremented), and of the calls made in one
  window, the opening call and any number of calls before the window ends, exactly
  \<^verbatim>\<open>max\<close> are admitted once at least \<^verbatim>\<open>max\<close> calls have been made: the number admitted is
  the minimum of the number of calls and \<^verbatim>\<open>max\<close>.
\<close>

theorem checkLimit_rejection_keeps_capacity:
  "(checkLimit now k lmt = (Inl err, lmt') \<longrightarrow>
      (\<exists>e. limits lmt' k = Some e \<and> count e = windowCount now k lmt)) \<and>
   (opensWindow t0 k rl \<and> 0 \<le> maxRequests rl \<and> (\<forall>t\<in>set ts. t < t0 + windowMs rl) \<longrightarrow>
      admitted (fst (checkLimits (t0 # ts) k rl)) = min (length (t0 # ts)) (nat (maxRequests rl)))"
proof (intro conjI impI)
  assume "checkLimit now k lmt = (Inl err, lmt')"
  then show "\<exists>e. limits lmt' k = Some e \<and> count e = windowCount now k lmt"
    by (rule checkLimit_reject_count)
next
  assume a: "opensWindow t0 k rl \<and> 0 \<le> maxRequests rl \<and> (\<forall>t\<in>set ts. t < t0 + windowMs rl)"
  show "admitted (fst (checkLimits (t0 # ts) k rl)) = min (length (t0 # ts)) (nat (maxRequests rl))"
  proof (cases "maxRequests rl = 0")
    case True
    let ?e = "\<lparr>count = 0, resetTime = t0 + windowMs rl\<rparr>"
    let ?rl' = "rl\<lparr>limits := (limits rl)(k \<mapsto> ?e)\<rparr>"
    have s: "checkLimit t0 k rl =
               (Inl (rateLimited (windowMs rl) (maxRequests rl) (windowMs rl)), ?rl')"
      using a True by (intro checkLimit_open_reject) auto
    have "admitted (fst (checkLimits ts k ?rl')) = 0"
      using checkLimits_live_reject_all[of ?rl' k ?e ts] a True by simp
    with s True show ?thesis
      by (simp add: admitted_def split_beta rateLimited_def)
  next
    case False
    then have pos: "0 < maxRequests rl" using a by simp
    let ?e = "\<lparr>count = 1, resetTime = t0 + windowMs rl\<rparr>"
    let ?rl' = "rl\<lparr>limits := (limits rl)(k \<mapsto> ?e)\<rparr>"
    have s: "checkLimit t0 k rl = (Inr (), ?rl')"
      using a pos by (intro checkLimit_open_admit) auto
    have "admitted (fst (checkLimits ts k ?rl')) = min (length ts) (nat (maxRequests ?rl' - count ?e))"
      using a pos by (intro checkLimits_live_admitted) auto
    with s pos show ?thesis
      by (simp add: admitted_def split_beta)
  qed
qed

theorem checkLimit_rejection_keeps_capacity_witness:
  "checkLimit 5 ''k'' (newRateLimiter 60000 0)
     = (Inl (rateLimited 60000 0 60000),
        (newRateLimiter 60000 0)\<lparr>limits := [''k'' \<mapsto> \<lparr>count = 0, resetTime = 60005\<rparr>]\<rparr>) \<and>
   (\<exists>e. limits ((newRateLimiter 60000 0)\<lparr>limits := [''k'' \<mapsto> \<lparr>count = 0, resetTime = 60005\<rparr>]\<rparr>) ''k''
          = Some e \<and> count e = windowCount 5 ''k'' (newRateLimiter 60000 0)) \<and>
   opensWindow 0 ''k'' (newRateLimiter 60000 2) \<and> 0 \<le> maxRequests (newRateLimiter 60000 2) \<and>
   30 < 0 + windowMs (newRateLimiter 60000 2) \<and>
   admitted (fst (checkLimits [0, 10, 20, 30] ''k'' (newRateLimiter 60000 2))) = 2"
proof -
  let ?rl = "newRateLimiter 60000 2"
  let ?zero = "newRateLimiter 60000 0"
  let ?zero' = "?zero\<lparr>limits := [''k'' \<mapsto> \<lparr>count = 0, resetTime = 60005\<rparr>]\<rparr>"
  have r: "checkLimit 5 ''k'' ?zero = (Inl (rateLimited 60000 0 60000), ?zero')"
    by (simp add: checkLimit_def newRateLimiter_def rateLimited_def createMCPError_def)
  have h: "opensWindow 0 ''k'' ?rl \<and> 0 \<le> maxRequests ?rl \<and>
       (\<forall>t\<in>set [10, 20, 30]. t < 0 + windowMs ?rl)"
    by (simp add: newRateLimiter_def opensWindow_def)
  note T = checkLimit_rejection_keeps_capacity
    [where now = 5 and k = "''k''" and lmt = ?zero and err = "rateLimited 60000 0 60000"
       and lmt' = ?zero' and ?t0.0 = 0 and rl = ?rl and ts = "[10, 20, 30]"]
  from T r have A: "\<exists>e. limits ?zero' ''k'' = Some e \<and> count e = windowCount 5 ''k'' ?zero"
    by blast
  have mr: "maxRequests ?rl = 2"
    by (simp add: newRateLimiter_def)
  have m: "min (length [0, 10, 20, 30::int]) (nat (maxRequests ?rl)) = 2"
    by (simp add: mr)
  from T h have "admitted (fst (checkLimits [0, 10, 20, 30] ''k'' ?rl))
      = min (length [0, 10, 20, 30::int]) (nat (maxRequests ?rl))"
    by blast
  then have B: "admitted (fst (checkLimits [0, 10, 20, 30] ''k'' ?rl)) = 2"
    by (simp only: m)
  have w: "30 < 0 + windowMs ?rl"
    by (simp add: newRateLimiter_def)
  from r A h B w show ?thesis by blast
qed

section \<open>The backoff manager\<close>

lemma withBackoff_reraises: "fst (withBackoff key (Inl e) rnd delays) = Inl e"
  by (simp add: withBackoff_def Let_def)

lemma withBackoff_success:
  "withBackoff key (Inr v) rnd delays = (Inr v, None, delays(key := None))"
  by (simp add: withBackoff_def)

lemma withBackoff_rate_limited:
  assumes "isRateLimited e"
  shows "withBackoff key (Inl e) rnd delays =
           (Inl e,
            Some (max 100 (of_int (storedOrBase delays key)
                            + of_int (storedOrBase delays key) * 0.25 * (rnd * 2 - 1))),
            delays(key \<mapsto> min (storedOrBase delays key * 2) maxDelay))"
  using assms by (simp add: withBackoff_def storedOrBase_def Let_def)

lemma jitter_bound:
  fixes rnd :: real and c :: int
  assumes "0 \<le> rnd" "rnd < 1" "400 \<le> c"
  shows "\<bar>max 100 (of_int c + of_int c * 0.25 * (rnd * 2 - 1)) - of_int c\<bar> \<le> of_int c / 4"
proof -
  have c: "(400::real) \<le> of_int c" using assms(3) by linarith
  have lo: "- 1 \<le> rnd * 2 - 1" and hi: "rnd * 2 - 1 \<le> 1" using assms by simp_all
  have "of_int c * 0.25 * (rnd * 2 - 1) \<le> of_int c * 0.25 * 1"
    using c hi by (intro mult_left_mono) simp_all
  moreover have "of_int c * 0.25 * (- 1) \<le> of_int c * 0.25 * (rnd * 2 - 1)"
    using c lo by (intro mult_left_mono) simp_all
  ultimately show ?thesis using c by (simp add: max_def abs_if)
qed

lemma withBackoff_bounded:
  assumes "\<forall>k v. d k = Some v \<longrightarrow> v \<le> maxDelay"
  shows "\<forall>k v. snd (snd (withBackoff key outcome rnd d)) k = Some v \<longrightarrow> v \<le> maxDelay"
  using assms by (auto simp: withBackoff_def Let_def split: sum.splits if_splits)

lemma backoffRun_bounded:
  assumes "\<forall>k v. d k = Some v \<longrightarrow> v \<le> maxDelay"
  shows "\<forall>k v. backoffRun calls d k = Some v \<longrightarrow> v \<le> maxDelay"
  using assms
proof (induction calls arbitrary: d)
  case Nil
  then show ?case by simp
next
  case (Cons c cs)
  obtain key outcome rnd where c: "c = (key, outcome, rnd)" by (cases c)
  show ?case
    unfolding c backoffRun.simps
    by (rule Cons.IH, rule withBackoff_bounded, rule Cons.prems)
qed

lemma withBackoff_step:
  assumes "isRateLimited e" "0 \<le> rnd" "rnd < 1" "delays key = st"
    and "c = (case st of None \<Rightarrow> baseDelay | Some d \<Rightarrow> if d = 0 then baseDelay else d)"
    and "400 \<le> c" "c * 2 \<le> maxDelay"
    and "withBackoff key (Inl e) rnd delays = (out, slept, delays')"
  shows "out = Inl e \<and> (\<exists>x. slept = Some x \<and> \<bar>x - of_int c\<bar> \<le> of_int c / 4) \<and>
         delays' = delays(key \<mapsto> c * 2)"
proof -
  have sb: "storedOrBase delays key = c"
    using assms(4,5) by (simp add: storedOrBase_def)
  have w: "withBackoff key (Inl e) rnd delays =
          (Inl e, Some (max 100 (of_int c + of_int c * 0.25 * (rnd * 2 - 1))),
           delays(key \<mapsto> min (c * 2) maxDelay))"
    using withBackoff_rate_limited[OF assms(1), of key rnd delays]
    by (simp only: sb)
  have "(out, slept, delays') =
          (Inl e, Some (max 100 (of_int c + of_int c * 0.25 * (rnd * 2 - 1))),
           delays(key \<mapsto> min (c * 2) maxDelay))"
    using assms(8) by (simp only: w)
  moreover have "min (c * 2) maxDelay = c * 2" using assms(7) by simp
  ultimately show ?thesis
    using jitter_bound[OF assms(2,3,6)] by simp
qed

text \<open>
  Claim C6.  For every key without a stored delay, three consecutive \<^verbatim>\<open>RATE_LIMITED\<close>
  failures under \<^verbatim>\<open>withBackoff\<close> sleep for times within 25 percent of 1000, 2000 and
  4000 milliseconds, and each call throws the failure it caught; after any sequence of
  calls on a new manager no stored delay exceeds 32000; a success deletes the stored delay
  of its key; and whatever the failure is, \<^verbatim>\<open>withBackoff\<close> throws it unchanged.
\<close>

theorem withBackoff_doubles_and_reraises:
  assumes fresh: "delays key = None"
    and rl: "isRateLimited e1" "isRateLimited e2" "isRateLimited e3"
    and r1: "0 \<le> r1 \<and> r1 < 1" and r2: "0 \<le> r2 \<and> r2 < 1" and r3: "0 \<le> r3 \<and> r3 < 1"
    and c1: "withBackoff key (Inl e1) r1 delays = (o1, s1, d1)"
    and c2: "withBackoff key (Inl e2) r2 d1 = (o2, s2, d2)"
    and c3: "withBackoff key (Inl e3) r3 d2 = (o3, s3, d3)"
  shows "(\<exists>x1 x2 x3. s1 = Some x1 \<and> s2 = Some x2 \<and> s3 = Some x3 \<and>
            \<bar>x1 - 1000\<bar> \<le> 250 \<and> \<bar>x2 - 2000\<bar> \<le> 500 \<and> \<bar>x3 - 4000\<bar> \<le> 1000) \<and>
         o1 = Inl e1 \<and> o2 = Inl e2 \<and> o3 = Inl e3 \<and>
         (\<forall>k v. backoffRun calls Map.empty k = Some v \<longrightarrow> v \<le> 32000) \<and>
         snd (snd (withBackoff key (Inr v) r d3)) key = None \<and>
         fst (withBackoff key' (Inl e) r' d') = Inl e"
proof -
  have s1: "o1 = Inl e1 \<and> (\<exists>x. s1 = Some x \<and> \<bar>x - of_int 1000\<bar> \<le> of_int 1000 / 4) \<and>
            d1 = delays(key \<mapsto> 1000 * 2)"
    using rl(1) r1 fresh c1
    by (intro withBackoff_step[where st = None]) (simp_all add: baseDelay_def maxDelay_def)
  then have k1: "d1 key = Some 2000" by simp
  have s2: "o2 = Inl e2 \<and> (\<exists>x. s2 = Some x \<and> \<bar>x - of_int 2000\<bar> \<le> of_int 2000 / 4) \<and>
            d2 = d1(key \<mapsto> 2000 * 2)"
    using rl(2) r2 k1 c2
    by (intro withBackoff_step[where st = "Some 2000"]) (simp_all add: maxDelay_def)
  then have k2: "d2 key = Some 4000" by simp
  have s3: "o3 = Inl e3 \<and> (\<exists>x. s3 = Some x \<and> \<bar>x - of_int 4000\<bar> \<le> of_int 4000 / 4) \<and>
            d3 = d2(key \<mapsto> 4000 * 2)"
    using rl(3) r3 k2 c3
    by (intro withBackoff_step[where st = "Some 4000"]) (simp_all add: maxDelay_def)
  have a: "\<exists>x1 x2 x3. s1 = Some x1 \<and> s2 = Some x2 \<and> s3 = Some x3 \<and>
            \<bar>x1 - 1000\<bar> \<le> 250 \<and> \<bar>x2 - 2000\<bar> \<le> 500 \<and> \<bar>x3 - 4000\<bar> \<le> 1000"
    using s1 s2 s3 by auto
  have b: "\<forall>k v. backoffRun calls Map.empty k = Some v \<longrightarrow> v \<le> 32000"
    using backoffRun_bounded[of Map.empty calls] by (simp add: maxDelay_def)
  have c: "snd (snd (withBackoff key (Inr v) r d3)) key = None"
    by (simp add: withBackoff_success)
  have d: "fst (withBackoff key' (Inl e) r' d') = Inl e"
    by (rule withBackoff_reraises)
  from a b c d s1 s2 s3 show ?thesis by blast
qed

theorem withBackoff_doubles_and_reraises_witness:
  "isRateLimited rateLimitedUpstream \<and>
   withBackoff ''google-cse'' (Inl rateLimitedUpstream :: thrown + json) 0 Map.empty
     = (Inl rateLimitedUpstream, Some 750, [''google-cse'' \<mapsto> 2000]) \<and>
   withBackoff ''google-cse'' (Inl rateLimitedUpstream :: thrown + json) (1/2) [''google-cse'' \<mapsto> 2000]
     = (Inl rateLimitedUpstream, Some 2000, [''google-cse'' \<mapsto> 4000]) \<and>
   withBackoff ''google-cse'' (Inl rateLimitedUpstream :: thrown + json) (3/4) [''google-cse'' \<mapsto> 4000]
     = (Inl rateLimitedUpstream, Some 4500, [''google-cse'' \<mapsto> 8000]) \<and>
   (\<exists>x1 x2 x3. Some (750::real) = Some x1 \<and> Some (2000::real) = Some x2 \<and> Some (4500::real) = Some x3 \<and>
       \<bar>x1 - 1000\<bar> \<le> 250 \<and> \<bar>x2 - 2000\<bar> \<le> 500 \<and> \<bar>x3 - 4000\<bar> \<le> 1000) \<and>
   snd (snd (withBackoff ''google-cse'' (Inr JNull :: thrown + json) 0 [''google-cse'' \<mapsto> 8000]))
     ''google-cse'' = None"
proof -
  let ?e = rateLimitedUpstream
  have e: "isRateLimited ?e"
    by (simp add: rateLimitedUpstream_def createMCPError_def)
  have c1: "withBackoff ''google-cse'' (Inl ?e :: thrown + json) 0 Map.empty
     = (Inl ?e, Some 750, [''google-cse'' \<mapsto> 2000])"
    using e by (simp add: withBackoff_def baseDelay_def maxDelay_def)
  have c2: "withBackoff ''google-cse'' (Inl ?e :: thrown + json) (1/2) [''google-cse'' \<mapsto> 2000]
     = (Inl ?e, Some 2000, [''google-cse'' \<mapsto> 4000])"
    using e by (simp add: withBackoff_def baseDelay_def maxDelay_def)
  have c3: "withBackoff ''google-cse'' (Inl ?e :: thrown + json) (3/4) [''google-cse'' \<mapsto> 4000]
     = (Inl ?e, Some 4500, [''google-cse'' \<mapsto> 8000])"
    using e by (simp add: withBackoff_def baseDelay_def maxDelay_def)
  have r: "(0::real) \<le> 0 \<and> (0::real) < 1" "(0::real) \<le> 1/2 \<and> (1/2::real) < 1"
          "(0::real) \<le> 3/4 \<and> (3/4::real) < 1"
    by simp_all
  have f: "(Map.empty :: string \<rightharpoonup> int) ''google-cse'' = None" by simp
  from withBackoff_doubles_and_reraises
         [OF f e e e r c1 c2 c3, where v = JNull and r = 0 and calls = "[]"
            and key' = "''google-cse''" and e = ?e and r' = 0 and d' = Map.empty]
       e c1 c2 c3
  show ?thesis by blast
qed

section \<open>The HTTP server\<close>

subsection \<open>Evaluating the handlers\<close>

lemmas server_defs =
  handlePost_def processJsonRpcRequest_def dispatchMethod_def handleInitialize_def
  createSession_def newStream_def addSSEStream_def sendSSE_def handleGet_def
  present_def valueOf_def orElse_def accepted_def parseError_def sessionHeader_def sseHeaders_def
  handleToolsList_def initializeResult_def

lemma afterInitialize_eval:
  "afterInitialize =
     (newServer 60000 120)\<lparr>sessions :=
        [''session-1'' \<mapsto> \<lparr>sessId = ''session-1'', createdAt = 0, lastAccessedAt = 0,
                               initialized = True\<rparr>]\<rparr>"
  by (simp add: afterInitialize_def server_defs initializeMsg_def envAt_def newServer_def)

subsection \<open>Notifications\<close>

lemma processJsonRpcRequest_tagged:
  assumes "getProp message ''jsonrpc'' = Some (JStr ''2.0'')"
  shows "\<exists>payload sid' effs s'.
           processJsonRpcRequest message sid env s =
             (Inr (Response (getProp message ''id'') payload, sid'), effs, s')"
proof -
  have nn: "message \<noteq> JNull" using assms by auto
  obtain out effs s' where
    d: "dispatchMethod (getProp message ''method'') (getProp message ''params'') sid env s
          = (out, effs, s')"
    by (cases "dispatchMethod (getProp message ''method'') (getProp message ''params'') sid env s")
  show ?thesis
  proof (cases out)
    case (Inl error)
    then show ?thesis using assms nn d by (simp add: processJsonRpcRequest_def)
  next
    case (Inr r)
    then show ?thesis using assms nn d
      by (cases r) (simp add: processJsonRpcRequest_def)
  qed
qed

text \<open>
  Claim C8, as stated, fails: a body that parses and carries a method and no id, but not
  the protocol tag, is answered with status 400 and a JSON-RPC error body.
\<close>

theorem untagged_notification_rejected:
  "getProp untaggedNotification ''method'' = Some (JStr ''ping'') \<and>
   getProp untaggedNotification ''id'' = None \<and>
   fst (handlePost None (Some ''application/json'') (Some untaggedNotification)
          (envAt 0 ''unused'') (newServer 60000 120))
     = \<lparr>status = 400, headers = [(''Content-Type'', ''application/json'')],
        body = ParseErrorBody (Some invalidRequest)\<rparr>"
  by (simp add: untaggedNotification_def handlePost_def processJsonRpcRequest_def parseError_def)

text \<open>
  Claim C8, amended.  For every POST whose body parses to a message with \<^verbatim>\<open>jsonrpc\<close>
  equal to \<^verbatim>\<open>"2.0"\<close> and without an id, whatever the method and whatever the handler does,
  the response is status 202 with no headers and no body.
\<close>

theorem notification_acknowledged:
  assumes "getProp message ''jsonrpc'' = Some (JStr ''2.0'')"
    and "getProp message ''id'' = None"
  shows "fst (handlePost sid acceptHeader (Some message) env s) = accepted"
proof -
  obtain payload sid' effs s' where
    "processJsonRpcRequest message sid env s =
       (Inr (Response (getProp message ''id'') payload, sid'), effs, s')"
    using processJsonRpcRequest_tagged[OF assms(1)] by blast
  then show ?thesis
    using assms(2) by (simp add: handlePost_def)
qed

theorem notification_acknowledged_witness:
  "getProp failingNotification ''jsonrpc'' = Some (JStr ''2.0'') \<and>
   getProp failingNotification ''id'' = None \<and>
   fst (processJsonRpcRequest failingNotification (Some ''session-1'') (envAt 5 ''unused'') afterInitialize)
     = Inr (Response None (Inl (ErrorValue (JNum (- 32601))
                                  ''Method not found: notifications/cancelled'' None)), None) \<and>
   fst (handlePost (Some ''session-1'') (Some ''application/json'') (Some failingNotification)
          (envAt 5 ''unused'') afterInitialize) = \<lparr>status = 202, headers = [], body = NoBody\<rparr>"
proof -
  have h1: "getProp failingNotification ''jsonrpc'' = Some (JStr ''2.0'')"
    and h2: "getProp failingNotification ''id'' = None"
    by (simp_all add: failingNotification_def)
  have p: "fst (processJsonRpcRequest failingNotification (Some ''session-1'') (envAt 5 ''unused'')
                  afterInitialize)
     = Inr (Response None (Inl (ErrorValue (JNum (- 32601))
                                  ''Method not found: notifications/cancelled'' None)), None)"
    by (simp add: failingNotification_def processJsonRpcRequest_def dispatchMethod_def envAt_def)
  from notification_acknowledged[OF h1 h2, of "Some ''session-1''" "Some ''application/json''"
         "envAt 5 ''unused''" afterInitialize] h1 h2 p
  show ?thesis by (simp add: accepted_def)
qed

text \<open>
  Claim C9.  For every POST whose body parses to a message with \<^verbatim>\<open>jsonrpc\<close> equal to
  \<^verbatim>\<open>"2.0"\<close> and an id that is falsy (\<^verbatim>\<open>0\<close>, \<^verbatim>\<open>null\<close>, the empty string, \<^verbatim>\<open>false\<close>), the
  response is status 202 with no body, although \<^verbatim>\<open>processJsonRpcRequest\<close> has computed a
  JSON-RPC response carrying that id.
\<close>

theorem falsy_id_acknowledged:
  assumes "getProp message ''jsonrpc'' = Some (JStr ''2.0'')"
    and "getProp message ''id'' = Some v"
    and "\<not> truthy (Some v)"
  shows "fst (handlePost sid acceptHeader (Some message) env s) = accepted \<and>
         (\<exists>payload sid'. fst (processJsonRpcRequest message sid env s)
                            = Inr (Response (Some v) payload, sid'))"
proof -
  obtain payload sid' effs s' where
    p: "processJsonRpcRequest message sid env s =
       (Inr (Response (getProp message ''id'') payload, sid'), effs, s')"
    using processJsonRpcRequest_tagged[OF assms(1)] by blast
  have f: "\<not> truthy (getProp message ''id'')"
    using assms(2,3) by simp
  have "fst (handlePost sid acceptHeader (Some message) env s) = accepted"
    using p f by (simp add: handlePost_def)
  moreover have "fst (processJsonRpcRequest message sid env s) = Inr (Response (Some v) payload, sid')"
    using p assms(2) by simp
  ultimately show ?thesis by blast
qed

theorem falsy_id_acknowledged_witness:
  "getProp pingZeroMsg ''jsonrpc'' = Some (JStr ''2.0'') \<and>
   getProp pingZeroMsg ''id'' = Some (JNum 0) \<and>
   fst (processJsonRpcRequest pingZeroMsg None (envAt 5 ''unused'') (newServer 60000 120))
     = Inr (Response (Some (JNum 0)) (Inr PingResult), None) \<and>
   fst (handlePost None (Some ''application/json'') (Some pingZeroMsg)
          (envAt 5 ''unused'') (newServer 60000 120)) = \<lparr>status = 202, headers = [], body = NoBody\<rparr>"
proof -
  have h1: "getProp pingZeroMsg ''jsonrpc'' = Some (JStr ''2.0'')"
    and h2: "getProp pingZeroMsg ''id'' = Some (JNum 0)"
    by (simp_all add: pingZeroMsg_def)
  have h3: "\<not> truthy (Some (JNum 0))"
    by simp
  have p: "fst (processJsonRpcRequest pingZeroMsg None (envAt 5 ''unused'') (newServer 60000 120))
     = Inr (Response (Some (JNum 0)) (Inr PingResult), None)"
    by (simp add: pingZeroMsg_def processJsonRpcRequest_def dispatchMethod_def)
  from falsy_id_acknowledged[OF h1 h2 h3, of None "Some ''application/json''"
         "envAt 5 ''unused''" "newServer 60000 120"] h1 h2 p
  show ?thesis by (simp add: accepted_def)
qed

subsection \<open>The concrete runs\<close>

lemma includes_sse:
  "includesStr ''text/event-stream'' ''text/event-stream''"
  "includesStr ''application/json, text/event-stream'' ''text/event-stream''"
  "\<not> includesStr ''application/json'' ''text/event-stream''"
  by simp_all

lemma parseInt10_zero: "parseInt10 ''0'' = Some 0"
  by (simp add: parseInt10_def isWhite_def isDigit_def digitsValue_def)

lemma afterStreamedReply_eval:
  "afterStreamedReply =
     afterInitialize\<lparr>globalEventId := 1, nextRef := 1,
       sseStreams := [''session-1'' \<mapsto> [0]],
       streamHeap := [0 \<mapsto> \<lparr>res = [IdLine 1, DataLine (Response (Some (JNum 2))
                                      (Inr (ToolsListResult handleToolsList)))],
                            sessionId = ''session-1'', lastEventId = Some 1,
                            requestId = Some (JNum 2)\<rparr>]\<rparr>"
  by (simp add: afterStreamedReply_def afterInitialize_eval server_defs toolsListMsg_def
        envAt_def newServer_def)

lemma afterListen_eval:
  "afterListen =
     afterInitialize\<lparr>nextRef := 1,
       sseStreams := [''session-1'' \<mapsto> [0]],
       streamHeap := [0 \<mapsto> \<lparr>res = [], sessionId = ''session-1'', lastEventId = Some 0,
                            requestId = None\<rparr>]\<rparr>"
  by (simp add: afterListen_def afterInitialize_eval handleGet_def newStream_def
        addSSEStream_def present_def valueOf_def newServer_def)

lemma afterListenAndReply_eval:
  "afterListenAndReply =
     afterInitialize\<lparr>globalEventId := 1, nextRef := 2,
       sseStreams := [''session-1'' \<mapsto> [0, 1]],
       streamHeap := [0 \<mapsto> \<lparr>res = [], sessionId = ''session-1'', lastEventId = Some 0,
                            requestId = None\<rparr>,
                      1 \<mapsto> \<lparr>res = [IdLine 1, DataLine (Response (Some (JNum 2))
                                      (Inr (ToolsListResult handleToolsList)))],
                            sessionId = ''session-1'', lastEventId = Some 1,
                            requestId = Some (JNum 2)\<rparr>]\<rparr>"
  by (simp add: afterListenAndReply_def afterListen_eval afterInitialize_eval server_defs
        toolsListMsg_def envAt_def newServer_def)

subsection \<open>What the handlers leave alone\<close>

text \<open>
  No handler writes to \<^verbatim>\<open>messageQueues\<close>, and \<^verbatim>\<open>handlePost\<close> does not touch the
  \<^verbatim>\<open>lastAccessedAt\<close> of a session it finds.
\<close>

lemma sendSSE_frame:
  "messageQueues (sendSSE h payload evId s) = messageQueues s"
  "sessions (sendSSE h payload evId s) = sessions s"
  by (simp_all add: sendSSE_def split: option.splits)

lemma addSSEStream_frame:
  "messageQueues (addSSEStream k h s) = messageQueues s"
  "sessions (addSSEStream k h s) = sessions s"
  by (simp_all add: addSSEStream_def)

lemma newStream_frame:
  "messageQueues (snd (newStream stream s)) = messageQueues s"
  "sessions (snd (newStream stream s)) = sessions s"
  by (simp_all add: newStream_def)

lemma replay_frame:
  "messageQueues (replay h lastId queue s) = messageQueues s"
  "sessions (replay h lastId queue s) = sessions s"
  by (induction queue arbitrary: s) (simp_all add: sendSSE_frame)

lemma handleGet_frame:
  "messageQueues (snd (handleGet sid lastHdr acceptHdr s)) = messageQueues s"
  "sessions (snd (handleGet sid lastHdr acceptHdr s)) = sessions s"
  by (simp_all add: handleGet_def Let_def split_beta replay_frame addSSEStream_frame
        newStream_frame)

lemma handleToolCall_frame:
  "messageQueues (snd (snd (handleToolCall name args env s))) = messageQueues s"
  "sessions (snd (snd (handleToolCall name args env s))) = sessions s"
  by (simp_all add: handleToolCall_def Let_def split: prod.splits sum.splits option.splits)

lemma handleInitialize_queues:
  "messageQueues (snd (handleInitialize params sid env s)) = messageQueues s"
  by (simp add: handleInitialize_def Let_def split_beta)

lemma handleInitialize_lastAccessedAt:
  assumes "sessions s k = Some session" "randomUUID env \<noteq> k"
  shows "map_option lastAccessedAt (sessions (snd (handleInitialize params sid env s)) k)
           = Some (lastAccessedAt session)"
  using assms
  by (auto simp: handleInitialize_def createSession_def Let_def split: option.splits)

lemma dispatchMethod_queues:
  "messageQueues (snd (snd (dispatchMethod method params sid env s))) = messageQueues s"
proof -
  have i: "messageQueues (snd (handleInitialize params sid env s)) = messageQueues s"
    by (rule handleInitialize_queues)
  have t: "\<And>p. messageQueues (snd (snd (handleToolCall (getProp p ''name'')
                    (getProp p ''arguments'') env s))) = messageQueues s"
    by (rule handleToolCall_frame)
  show ?thesis
    using i t
    by (simp add: dispatchMethod_def split_beta split: sum.splits option.splits)
qed

lemma dispatchMethod_lastAccessedAt:
  assumes "sessions s k = Some session" "randomUUID env \<noteq> k"
  shows "map_option lastAccessedAt (sessions (snd (snd (dispatchMethod method params sid env s))) k)
           = Some (lastAccessedAt session)"
proof -
  have i: "map_option lastAccessedAt (sessions (snd (handleInitialize params sid env s)) k)
             = Some (lastAccessedAt session)"
    using assms by (rule handleInitialize_lastAccessedAt)
  have t: "\<And>p. sessions (snd (snd (handleToolCall (getProp p ''name'')
                    (getProp p ''arguments'') env s))) = sessions s"
    by (rule handleToolCall_frame)
  show ?thesis
    using i t assms(1)
    by (simp add: dispatchMethod_def split_beta split: sum.splits option.splits)
qed

lemma processJsonRpcRequest_queues:
  "messageQueues (snd (snd (processJsonRpcRequest message sid env s))) = messageQueues s"
  using dispatchMethod_queues[of "getProp message ''method''" "getProp message ''params''" sid env s]
  by (simp add: processJsonRpcRequest_def split_beta split: sum.splits)

lemma processJsonRpcRequest_lastAccessedAt:
  assumes "sessions s k = Some session" "randomUUID env \<noteq> k"
  shows "map_option lastAccessedAt
           (sessions (snd (snd (processJsonRpcRequest message sid env s))) k)
           = Some (lastAccessedAt session)"
  using dispatchMethod_lastAccessedAt[OF assms, of "getProp message ''method''"
          "getProp message ''params''" sid] assms(1)
  by (simp add: processJsonRpcRequest_def split_beta split: sum.splits)

lemma handlePost_queues:
  "messageQueues (snd (snd (handlePost sid acceptHdr parsed env s))) = messageQueues s"
proof (cases parsed)
  case None
  then show ?thesis by (simp add: handlePost_def)
next
  case (Some message)
  then show ?thesis
    using processJsonRpcRequest_queues[of message sid env s]
    by (simp add: handlePost_def Let_def split_beta sendSSE_frame addSSEStream_frame
          newStream_frame split: sum.splits)
qed

lemma handlePost_lastAccessedAt:
  assumes "sessions s k = Some session" "randomUUID env \<noteq> k"
  shows "map_option lastAccessedAt (sessions (snd (snd (handlePost sid acceptHdr parsed env s))) k)
           = Some (lastAccessedAt session)"
proof (cases parsed)
  case None
  then show ?thesis using assms(1) by (simp add: handlePost_def)
next
  case (Some message)
  then show ?thesis
    using processJsonRpcRequest_lastAccessedAt[OF assms, of message sid]
    by (simp add: handlePost_def Let_def split_beta sendSSE_frame addSSEStream_frame
          newStream_frame split: sum.splits)
qed

lemma handleDelete_queues:
  assumes "messageQueues s = Map.empty"
  shows "messageQueues (snd (handleDelete sid s)) = Map.empty"
  using assms by (simp add: handleDelete_def)

lemma cleanupSessions_queues:
  assumes "messageQueues s = Map.empty"
  shows "messageQueues (cleanupSessions t s) = Map.empty"
  by (auto simp: cleanupSessions_def assms)

lemma handleRequest_queues:
  assumes "messageQueues s = Map.empty"
  shows "messageQueues (snd (snd (handleRequest req env s))) = Map.empty"
  using assms handleDelete_queues[OF assms, of "hdrSession req"]
  by (simp add: handleRequest_def handlePost_queues handleGet_frame split_beta)

lemma removeSSEStream_frame:
  "messageQueues (removeSSEStream k h s) = messageQueues s"
  "sessions (removeSSEStream k h s) = sessions s"
  by (simp_all add: removeSSEStream_def split: option.splits)

lemma close_frame:
  "messageQueues (closePostStream owner h s) = messageQueues s"
  "sessions (closePostStream owner h s) = sessions s"
  "messageQueues (closeGetStream sid h s) = messageQueues s"
  "sessions (closeGetStream sid h s) = sessions s"
  "messageQueues (keepAlive h s) = messageQueues s"
  "sessions (keepAlive h s) = sessions s"
  by (simp_all add: closePostStream_def closeGetStream_def keepAlive_def removeSSEStream_frame)

lemma reachable_queues_empty:
  assumes "reachable w m s"
  shows "messageQueues s = Map.empty"
  using assms
proof (induction rule: reachable.induct)
  case started
  show ?case by (simp add: newServer_def)
next
  case (served s env req)
  then show ?case by (simp add: handleRequest_queues)
next
  case (swept s t)
  then show ?case by (simp add: cleanupSessions_queues)
qed (simp_all add: close_frame)

lemma handleGet_replays_nothing:
  assumes "messageQueues s = Map.empty"
  shows "map_option res (streamHeap (snd (handleGet sid lastHdr acceptHdr s)) (nextRef s))
           = (if includesStr (case acceptHdr of None \<Rightarrow> [] | Some a \<Rightarrow> a) ''text/event-stream''
                 \<and> \<not> (present sid \<and> sessions s (valueOf sid) = None)
              then Some [] else map_option res (streamHeap s (nextRef s)))"
  using assms
  by (simp add: handleGet_def Let_def newStream_def addSSEStream_def)

subsection \<open>Resuming a stream\<close>

text \<open>
  In every state the server can reach the replay queues are empty, so a GET that resumes a
  stream for a live session opens the stream and writes nothing to it, whatever
  \<^verbatim>\<open>Last-Event-ID\<close> it carries.
\<close>

lemma reachable_resume_replays_nothing:
  assumes "reachable w m s" and "sessions s k = Some session"
    and "includesStr acceptHdr ''text/event-stream''"
  shows "fst (handleGet (Some k) (Some lastHdr) (Some acceptHdr) s)
           = \<lparr>status = 200, headers = sseHeaders, body = StreamBody (nextRef s)\<rparr> \<and>
         map_option res
           (streamHeap (snd (handleGet (Some k) (Some lastHdr) (Some acceptHdr) s)) (nextRef s))
           = Some []"
proof -
  have q: "messageQueues s = Map.empty"
    using assms(1) by (rule reachable_queues_empty)
  show ?thesis
    using q assms(2,3)
    by (simp add: handleGet_def Let_def newStream_def addSSEStream_def present_def valueOf_def)
qed

text \<open>
  Claim C1.  After \<^verbatim>\<open>initialize\<close>, a \<^verbatim>\<open>tools/list\<close> request for the session is answered
  on an event stream: the event with id 1 is written to it.  Nothing is put into the
  replay queue of the session, and a GET for the session with \<^verbatim>\<open>Last-Event-ID: 0\<close> opens
  stream 1 and replays nothing, although the event delivered has an id greater than 0.
\<close>

theorem resume_replays_nothing:
  "map_option res (streamHeap afterStreamedReply 0)
     = Some [IdLine 1, DataLine (Response (Some (JNum 2)) (Inr (ToolsListResult handleToolsList)))] \<and>
   map_option sessionId (streamHeap afterStreamedReply 0) = Some ''session-1'' \<and>
   messageQueues afterStreamedReply ''session-1'' = None \<and>
   fst (handleGet (Some ''session-1'') (Some ''0'') (Some ''text/event-stream'') afterStreamedReply)
     = \<lparr>status = 200, headers = sseHeaders, body = StreamBody 1\<rparr> \<and>
   map_option res
     (streamHeap (snd (handleGet (Some ''session-1'') (Some ''0'') (Some ''text/event-stream'')
                         afterStreamedReply)) 1) = Some []"
  by (simp add: afterStreamedReply_eval afterInitialize_eval handleGet_def newStream_def
        addSSEStream_def present_def valueOf_def parseInt10_zero newServer_def)

subsection \<open>Sending an event\<close>

text \<open>
  Claim C2, as stated, fails: with a listener's stream 0 and the stream 1 of a POST both
  registered for the session, the event sent for the POST is written to stream 1 only;
  stream 0 receives nothing and the replay queue of the session stays absent.
\<close>

theorem send_reaches_one_stream_only:
  "sseStreams afterListen ''session-1'' = Some [0] \<and>
   sseStreams afterListenAndReply ''session-1'' = Some [0, 1] \<and>
   map_option res (streamHeap afterListenAndReply 1)
     = Some [IdLine 1, DataLine (Response (Some (JNum 2)) (Inr (ToolsListResult handleToolsList)))] \<and>
   map_option res (streamHeap afterListenAndReply 0) = Some [] \<and>
   messageQueues afterListenAndReply ''session-1'' = None"
  by (simp add: afterListenAndReply_eval afterListen_eval afterInitialize_eval newServer_def)

text \<open>
  Claim C2, amended.  Sending a payload on a stream without a given event id increments
  the global event id, records the new id as the stream's \<^verbatim>\<open>lastEventId\<close>, appends the
  id line and the data line to that stream, and leaves every other stream as it was.
\<close>

theorem sendSSE_writes_one_stream:
  assumes "streamHeap s h = Some stream"
  shows "globalEventId (sendSSE h payload None s) = globalEventId s + 1 \<and>
         streamHeap (sendSSE h payload None s) h
           = Some (stream\<lparr>lastEventId := Some (globalEventId s + 1),
                           res := res stream @ [IdLine (globalEventId s + 1), DataLine payload]\<rparr>) \<and>
         (\<forall>h'. h' \<noteq> h \<longrightarrow> streamHeap (sendSSE h payload None s) h' = streamHeap s h')"
  using assms by (simp add: sendSSE_def)

theorem sendSSE_writes_one_stream_witness:
  "streamHeap afterListenAndReply 1
     = Some \<lparr>res = [IdLine 1, DataLine (Response (Some (JNum 2))
                                      (Inr (ToolsListResult handleToolsList)))],
             sessionId = ''session-1'', lastEventId = Some 1, requestId = Some (JNum 2)\<rparr> \<and>
   globalEventId (sendSSE 1 (Response None (Inr PingResult)) None afterListenAndReply) = 2 \<and>
   map_option res (streamHeap (sendSSE 1 (Response None (Inr PingResult)) None afterListenAndReply) 1)
     = Some [IdLine 1, DataLine (Response (Some (JNum 2)) (Inr (ToolsListResult handleToolsList))),
             IdLine 2, DataLine (Response None (Inr PingResult))] \<and>
   map_option res (streamHeap (sendSSE 1 (Response None (Inr PingResult)) None afterListenAndReply) 0)
     = Some []"
proof -
  let ?st = "\<lparr>res = [IdLine 1, DataLine (Response (Some (JNum 2))
                                      (Inr (ToolsListResult handleToolsList)))],
             sessionId = ''session-1'', lastEventId = Some 1, requestId = Some (JNum 2)\<rparr>"
  have h: "streamHeap afterListenAndReply 1 = Some ?st"
    by (simp add: afterListenAndReply_eval)
  have g: "globalEventId afterListenAndReply = 1"
    and z: "map_option res (streamHeap afterListenAndReply 0) = Some []"
    by (simp_all add: afterListenAndReply_eval)
  from sendSSE_writes_one_stream[OF h, of "Response None (Inr PingResult)"] h g z
  show ?thesis by simp
qed

subsection \<open>Tool calls\<close>

lemma handleToolCall_checks_limit_first:
  "\<exists>rest. fst (snd (handleToolCall name args env s)) = CheckLimit ''default-client'' # rest"
  by (simp add: handleToolCall_def Let_def split: prod.splits sum.splits option.splits)

lemma handleToolCall_rejected_calls_nothing:
  assumes "fst (checkLimit (dateNow env) ''default-client'' (rateLimiter s)) = Inl error"
  shows "fst (handleToolCall name args env s) = Inl error \<and>
         fst (snd (handleToolCall name args env s)) = [CheckLimit ''default-client'']"
proof -
  obtain rl where "checkLimit (dateNow env) ''default-client'' (rateLimiter s) = (Inl error, rl)"
    using assms by (cases "checkLimit (dateNow env) ''default-client'' (rateLimiter s)") simp
  then show ?thesis by (simp add: handleToolCall_def)
qed

text \<open>
  Claim C3.  A \<^verbatim>\<open>tools/call\<close> request without a session id, sent to a server that has
  no session at all, is answered with status 200 and the collaborator's result: the rate
  limiter is consulted and then the search collaborator is invoked.
\<close>

theorem tools_call_without_session:
  "sessions (newServer 60000 120) = Map.empty \<and>
   fst (handlePost None (Some ''application/json'') (Some searchCallMsg)
          (envAt 0 ''unused'') (newServer 60000 120))
     = \<lparr>status = 200, headers = [(''Content-Type'', ''application/json'')],
        body = JsonBody (Response (Some (JNum 3))
                 (Inr (ToolCallResult (JObj [(''articles'', JArr [])]))))\<rparr> \<and>
   fst (snd (handlePost None (Some ''application/json'') (Some searchCallMsg)
               (envAt 0 ''unused'') (newServer 60000 120)))
     = [CheckLimit ''default-client'', CallSearch (Some searchArgs)]"
  by (simp add: searchCallMsg_def handlePost_def processJsonRpcRequest_def dispatchMethod_def
        handleToolCall_def nonNullish_def checkLimit_def withBackoff_def sleeps_def envAt_def newServer_def
        newRateLimiter_def sessionHeader_def)

subsection \<open>The idle sweep\<close>

text \<open>
  Claim C4.  The session created at time 0 receives a request at 7000000, which leaves
  its \<^verbatim>\<open>lastAccessedAt\<close> at 0, and the sweep at 7199000 deletes it, 199 seconds after
  that request.  \<^verbatim>\<open>getSession\<close>, which would have set \<^verbatim>\<open>lastAccessedAt\<close> to 7000000, is
  not called by any handler.
\<close>

theorem active_session_swept:
  "map_option lastAccessedAt (sessions afterInitialize ''session-1'') = Some 0 \<and>
   map_option lastAccessedAt (sessions afterLateRequest ''session-1'') = Some 0 \<and>
   sessions (cleanupSessions 7199000 afterLateRequest) ''session-1'' = None \<and>
   map_option lastAccessedAt
     (fst (getSession (Some ''session-1'') (envAt 7000000 ''unused'') afterInitialize)) = Some 7000000"
  by (simp add: afterLateRequest_def afterInitialize_eval cleanupSessions_def expired_def
        sessionTimeout_def getSession_def Let_def toolsListMsg_def handlePost_def
        processJsonRpcRequest_def dispatchMethod_def envAt_def newServer_def)

subsection \<open>Initialize\<close>

lemma sessionsWf_cong:
  assumes "sessions s' = sessions s"
  shows "sessionsWf s' = sessionsWf s"
  by (simp add: sessionsWf_def assms)

lemma sessionsWf_newServer: "sessionsWf (newServer w m)"
  by (simp add: sessionsWf_def newServer_def)

lemma handleInitialize_sessionsWf:
  assumes "sessionsWf s" "randomUUID env \<noteq> []"
  shows "sessionsWf (snd (handleInitialize params sid env s))"
  using assms
  by (auto simp: sessionsWf_def handleInitialize_def createSession_def Let_def
           split: option.splits if_splits)

lemma dispatchMethod_sessionsWf:
  assumes "sessionsWf s" "randomUUID env \<noteq> []"
  shows "sessionsWf (snd (snd (dispatchMethod method params sid env s)))"
proof -
  have i: "sessionsWf (snd (handleInitialize params sid env s))"
    using assms by (rule handleInitialize_sessionsWf)
  have t: "\<And>p. sessionsWf (snd (snd (handleToolCall (getProp p ''name'')
                    (getProp p ''arguments'') env s)))"
    using assms(1) by (simp add: sessionsWf_cong[OF handleToolCall_frame(2)])
  show ?thesis
    using i t assms(1)
    by (simp add: dispatchMethod_def split_beta split: sum.splits option.splits)
qed

lemma processJsonRpcRequest_sessionsWf:
  assumes "sessionsWf s" "randomUUID env \<noteq> []"
  shows "sessionsWf (snd (snd (processJsonRpcRequest message sid env s)))"
  using dispatchMethod_sessionsWf[OF assms, of "getProp message ''method''"
          "getProp message ''params''" sid] assms(1)
  by (simp add: processJsonRpcRequest_def split_beta split: sum.splits)

lemma handlePost_sessions:
  "sessions (snd (snd (handlePost sid acceptHdr (Some message) env s)))
     = sessions (snd (snd (processJsonRpcRequest message sid env s)))"
  by (simp add: handlePost_def Let_def split_beta sendSSE_frame addSSEStream_frame
        newStream_frame split: sum.splits)

lemma handlePost_sessionsWf:
  assumes "sessionsWf s" "randomUUID env \<noteq> []"
  shows "sessionsWf (snd (snd (handlePost sid acceptHdr parsed env s)))"
proof (cases parsed)
  case None
  then show ?thesis using assms(1) by (simp add: handlePost_def)
next
  case (Some message)
  show ?thesis
    unfolding Some sessionsWf_cong[OF handlePost_sessions]
    using assms by (rule processJsonRpcRequest_sessionsWf)
qed

lemma handleDelete_sessionsWf:
  assumes "sessionsWf s"
  shows "sessionsWf (snd (handleDelete sid s))"
  using assms by (auto simp: handleDelete_def sessionsWf_def)

lemma cleanupSessions_sessionsWf:
  assumes "sessionsWf s"
  shows "sessionsWf (cleanupSessions t s)"
  using assms by (auto simp: cleanupSessions_def sessionsWf_def split: if_splits)

lemma handleRequest_sessionsWf:
  assumes "sessionsWf s" "randomUUID env \<noteq> []"
  shows "sessionsWf (snd (snd (handleRequest req env s)))"
  using assms(1) handlePost_sessionsWf[OF assms] handleDelete_sessionsWf[OF assms(1)]
  by (simp add: handleRequest_def split_beta sessionsWf_cong[OF handleGet_frame(2)])

lemma reachable_sessionsWf:
  assumes "reachable w m s"
  shows "sessionsWf s"
  using assms
proof (induction rule: reachable.induct)
  case started
  show ?case by (rule sessionsWf_newServer)
next
  case (served s env req)
  then show ?case by (simp add: handleRequest_sessionsWf)
next
  case (swept s t)
  then show ?case by (simp add: cleanupSessions_sessionsWf)
next
  case (kept_alive s h)
  then show ?case by (simp add: sessionsWf_cong[OF close_frame(6)])
next
  case (post_closed s owner h)
  then show ?case by (simp add: sessionsWf_cong[OF close_frame(2)])
next
  case (get_closed s sid h)
  then show ?case by (simp add: sessionsWf_cong[OF close_frame(4)])
qed

lemma initialize_again_same_id:
  assumes "sessionsWf s" and "sessions s k = Some session"
    and "getProp message ''jsonrpc'' = Some (JStr ''2.0'')"
    and "getProp message ''method'' = Some (JStr ''initialize'')"
  shows "fst (processJsonRpcRequest message (Some k) env s)
           = Inr (Response (getProp message ''id'') (Inr (InitializeResult initializeResult)), Some k)"
proof -
  have k: "k \<noteq> []" and i: "sessId session = k"
    using assms(1,2) by (auto simp: sessionsWf_def)
  have n: "message \<noteq> JNull" using assms(3) by auto
  have r: "handleInitialize (getProp message ''params'') (Some k) env s =
             ((initializeResult, k), s\<lparr>sessions := (sessions s)(k \<mapsto> session\<lparr>initialized := True\<rparr>)\<rparr>)"
    using assms(2) k i by (simp add: handleInitialize_def)
  show ?thesis
    using n assms(3,4) r by (simp add: processJsonRpcRequest_def dispatchMethod_def)
qed

text \<open>
  Claim C7.  In a server whose sessions are stored under their own non-empty ids, calling
  \<^verbatim>\<open>initialize\<close> with the id of a live session returns that id, leaves the set of
  session ids unchanged, and keeps the session map well formed.
\<close>

theorem handleInitialize_idempotent:
  assumes "sessionsWf s" and "sessions s k = Some session"
  shows "snd (fst (handleInitialize params (Some k) env s)) = k \<and>
         dom (sessions (snd (handleInitialize params (Some k) env s))) = dom (sessions s) \<and>
         sessionsWf (snd (handleInitialize params (Some k) env s))"
proof -
  have k: "k \<noteq> []" and i: "sessId session = k"
    using assms by (auto simp: sessionsWf_def)
  have r: "handleInitialize params (Some k) env s =
             ((initializeResult, k), s\<lparr>sessions := (sessions s)(k \<mapsto> session\<lparr>initialized := True\<rparr>)\<rparr>)"
    using assms(2) k i by (simp add: handleInitialize_def)
  have "dom ((sessions s)(k \<mapsto> session\<lparr>initialized := True\<rparr>)) = dom (sessions s)"
    using assms(2) by auto
  moreover have "sessionsWf (s\<lparr>sessions := (sessions s)(k \<mapsto> session\<lparr>initialized := True\<rparr>)\<rparr>)"
    using assms(1) k i by (auto simp: sessionsWf_def)
  ultimately show ?thesis by (simp add: r)
qed

theorem handleInitialize_idempotent_witness:
  "sessionsWf afterInitialize \<and>
   sessions afterInitialize ''session-1''
     = Some \<lparr>sessId = ''session-1'', createdAt = 0, lastAccessedAt = 0, initialized = True\<rparr> \<and>
   snd (fst (handleInitialize None (Some ''session-1'') (envAt 99 ''session-2'') afterInitialize))
     = ''session-1'' \<and>
   dom (sessions (snd (handleInitialize None (Some ''session-1'') (envAt 99 ''session-2'')
                         afterInitialize))) = {''session-1''}"
proof -
  have w: "sessionsWf afterInitialize"
    by (simp add: sessionsWf_def afterInitialize_eval)
  have l: "sessions afterInitialize ''session-1''
     = Some \<lparr>sessId = ''session-1'', createdAt = 0, lastAccessedAt = 0, initialized = True\<rparr>"
    by (simp add: afterInitialize_eval)
  have d: "dom (sessions afterInitialize) = {''session-1''}"
    by (simp add: afterInitialize_eval newServer_def)
  from handleInitialize_idempotent[OF w l, of None "envAt 99 ''session-2''"] w l d
  show ?thesis by simp
qed

end
